theory Spec2Isabelle
  imports Complex_Main "HOL-Library.Sublist" "HOL-Library.Multiset"
begin

section \<open>Data model (src/types/app.ts, src/pages/Dashboard.tsx)\<close>

text \<open>
  The records of the store. The \<open>fields\<close> object of the TypeScript interfaces is
  flattened into the record; every optional field (\<open>name?\<close>, \<open>date?\<close>, ...) is an
  \<open>option\<close>, \<open>None\<close> being JavaScript's \<open>undefined\<close>. A JavaScript \<open>number\<close> is read as
  the real number it denotes (weights) or as an integer (repetitions, sets); \<open>NaN\<close> and the
  infinities are outside the model. Comparisons and maxima of such numbers are exact; the
  arithmetic of the strength gain rounds to double precision and is modelled so below
  (the volume product of \<open>analyzePR\<close>, on which no statement here depends, is left exact). The time stamps \<open>createdat\<close> and \<open>updatedat\<close>, which
  no function modelled here reads, are left out. A field name that two interfaces share
  carries a prefix (\<open>ue_record_id\<close>, \<open>pr_record_id\<close>, \<open>best_reps\<close> for \<open>previousBest.reps\<close>),
  and \<open>note\<close> is \<open>note_text\<close>.
\<close>

record Uebungen =
  ue_record_id :: string
  ue_name :: "string option"

record PrEintraege =
  pr_record_id :: string
  exercise_id :: "string option"
  date :: "string option"
  weight_kg :: "real option"
  reps :: "int option"
  sets :: "int option"
  note_text :: "string option"

record ExerciseWithPRs = Uebungen +
  prs :: "PrEintraege list"
  bestKg :: "real option"
  bestReps :: "int option"
  lastPR :: "PrEintraege option"

record PreviousBest =
  weight :: real
  best_reps :: int
  volume :: real

record PRAnalysis =
  isWeightPR :: bool
  isRepPR :: bool
  isVolumePR :: bool
  previousBest :: PreviousBest

section \<open>PR classifier: \<open>analyzePR\<close>\<close>

text \<open>\<open>x || 0\<close> on an optional number: \<open>undefined\<close> (and \<open>0\<close> itself) give \<open>0\<close>.\<close>

definition or0 :: "'a::zero option \<Rightarrow> 'a" where
  "or0 v = (case v of None \<Rightarrow> 0 | Some x \<Rightarrow> x)"

text \<open>
  \<open>Math.max(...xs)\<close> on a non-empty argument list, given as its first argument and the
  rest. (On no argument at all JavaScript returns \<open>-Infinity\<close>; every call of the source
  modelled here is guarded by a length test.)
\<close>

fun Math_max :: "'a::linorder \<Rightarrow> 'a list \<Rightarrow> 'a" where
  "Math_max x [] = x"
| "Math_max x (y # ys) = Math_max (max x y) ys"

definition entryVolume :: "PrEintraege \<Rightarrow> real" where
  "entryVolume e = or0 (weight_kg e) * real_of_int (or0 (reps e))"

definition sameWeightEntries :: "real \<Rightarrow> PrEintraege list \<Rightarrow> PrEintraege list" where
  "sameWeightEntries newWeight previousEntries =
     filter (\<lambda>e. weight_kg e = Some newWeight) previousEntries"

definition maxRepsAtWeight :: "PrEintraege list \<Rightarrow> int" where
  "maxRepsAtWeight sameWeight =
     (case sameWeight of
        [] \<Rightarrow> 0
      | s # ss \<Rightarrow> Math_max (or0 (reps s)) (map (\<lambda>e. or0 (reps e)) ss))"

fun analyzePR :: "real \<Rightarrow> int \<Rightarrow> PrEintraege list \<Rightarrow> PRAnalysis" where
  "analyzePR newWeight newReps [] =
     \<lparr> isWeightPR = True, isRepPR = True, isVolumePR = True,
       previousBest = \<lparr> weight = 0, best_reps = 0, volume = 0 \<rparr> \<rparr>"
| "analyzePR newWeight newReps (p # ps) =
     (let maxWeight = Math_max (or0 (weight_kg p)) (map (\<lambda>e. or0 (weight_kg e)) ps);
          maxVolume = Math_max (entryVolume p) (map entryVolume ps);
          sameWeight = sameWeightEntries newWeight (p # ps);
          maxReps = maxRepsAtWeight sameWeight;
          newVolume = newWeight * real_of_int newReps
      in \<lparr> isWeightPR = newWeight > maxWeight,
           isRepPR = (newReps > maxReps \<and> length sameWeight > 0),
           isVolumePR = newVolume > maxVolume,
           previousBest = \<lparr> weight = maxWeight, best_reps = maxReps, volume = maxVolume \<rparr> \<rparr>)"

text \<open>A history entry with the given weight and repetitions, for concrete runs.\<close>

definition mkEntry :: "string \<Rightarrow> string option \<Rightarrow> string option \<Rightarrow> real option \<Rightarrow> int option
    \<Rightarrow> PrEintraege" where
  "mkEntry rid ex d w r =
     \<lparr> pr_record_id = rid, exercise_id = ex, date = d, weight_kg = w, reps = r,
       sets = None, note_text = None \<rparr>"

section \<open>Reference resolver (src/services/livingAppsService.ts)\<close>

text \<open>
  \<open>extractRecordId\<close> matches the regular expression \<open>/([a-f0-9]{24})$/i\<close> against the
  URL. The class \<open>[a-f0-9]\<close> under the flag \<open>i\<close> accepts the digits and the letters a to f
  in either case.
\<close>

definition isHexChar :: "char \<Rightarrow> bool" where
  "isHexChar c \<longleftrightarrow> c \<in> set ''0123456789abcdefABCDEF''"

text \<open>
  An attempt to match at one position, the rest of the input from there being \<open>s\<close>: the
  group takes exactly 24 characters of the class, and \<open>$\<close> (no flag \<open>m\<close>) wants the input
  to end after them.
\<close>

definition matchHere :: "string \<Rightarrow> string option" where
  "matchHere s = (if length s = 24 \<and> list_all isHexChar s then Some s else None)"

text \<open>\<open>String.prototype.match\<close>: the leftmost position where the attempt succeeds.\<close>

fun regexMatch :: "string \<Rightarrow> string option" where
  "regexMatch [] = matchHere []"
| "regexMatch (c # cs) =
     (case matchHere (c # cs) of Some m \<Rightarrow> Some m | None \<Rightarrow> regexMatch cs)"

text \<open>\<open>!url\<close> holds for \<open>null\<close>, \<open>undefined\<close> (both \<open>None\<close>) and the empty string.\<close>

definition extractRecordId :: "string option \<Rightarrow> string option" where
  "extractRecordId url =
     (case url of
        None \<Rightarrow> None
      | Some u \<Rightarrow> if u = [] then None else regexMatch u)"

definition createRecordUrl :: "string \<Rightarrow> string \<Rightarrow> string" where
  "createRecordUrl appId recordId =
     ''https://my.living-apps.de/rest/apps/'' @ appId @ ''/records/'' @ recordId"

definition APP_IDS_UEBUNGEN :: string where
  "APP_IDS_UEBUNGEN = ''694d77f2ef696e8bff21287d''"

definition APP_IDS_PR_EINTRAEGE :: string where
  "APP_IDS_PR_EINTRAEGE = ''694d77f4b641f5b879e4e810''"

section \<open>Calendar bucketer: \<open>prsByDate\<close>, \<open>getHeatmapIntensity\<close>\<close>

text \<open>
  \<open>pr.fields.date?.split('T')[0]\<close>: \<open>undefined\<close> for a missing date, else the text before
  the first \<open>T\<close> (the whole string when there is none).
\<close>

definition dateKey :: "PrEintraege \<Rightarrow> string option" where
  "dateKey pr = map_option (takeWhile (\<lambda>c. c \<noteq> CHR ''T'')) (date pr)"

text \<open>
  One round of the \<open>forEach\<close> of \<open>prsByDate\<close>: \<open>if (date)\<close> skips \<open>undefined\<close> and the
  empty string; a key seen for the first time starts with the empty array. (Keys that name
  a property of \<open>Object.prototype\<close> are outside the model.)
\<close>

definition groupPush :: "PrEintraege \<Rightarrow> (string \<rightharpoonup> PrEintraege list) \<Rightarrow> (string \<rightharpoonup> PrEintraege list)" where
  "groupPush pr grouped =
     (case dateKey pr of
        None \<Rightarrow> grouped
      | Some d \<Rightarrow>
          if d = [] then grouped
          else grouped(d \<mapsto> (case grouped d of None \<Rightarrow> [] | Some l \<Rightarrow> l) @ [pr]))"

definition prsByDate :: "PrEintraege list \<Rightarrow> (string \<rightharpoonup> PrEintraege list)" where
  "prsByDate allPrEntries = fold groupPush allPrEntries Map.empty"

datatype HeatmapIntensity = none | low | medium | high

text \<open>\<open>prsByDate[dateStr]?.length || 0\<close>, then the three tests in the order of the source.\<close>

definition getHeatmapIntensity :: "(string \<rightharpoonup> PrEintraege list) \<Rightarrow> string \<Rightarrow> HeatmapIntensity" where
  "getHeatmapIntensity grouped dateStr =
     (let count = (case grouped dateStr of None \<Rightarrow> 0 | Some l \<Rightarrow> length l)
      in if count = 0 then none
         else if count \<le> 2 then low
         else if count \<le> 4 then medium
         else high)"

text \<open>The number of entries logged on a date: those whose date key is that date.\<close>

definition entriesOn :: "PrEintraege list \<Rightarrow> string \<Rightarrow> nat" where
  "entriesOn allPrEntries dateStr =
     length (filter (\<lambda>pr. dateKey pr = Some dateStr) allPrEntries)"

section \<open>Dates and sorting\<close>

text \<open>
  The JavaScript \<open>Date\<close> object and the library \<open>date-fns\<close> are not part of the repository.
  What the code takes from them is a parameter, a function of the date string \<open>s\<close>:
  \<^item> \<open>getTime lib s\<close> is \<open>new Date(s).getTime()\<close>, the milliseconds since the epoch;
  \<^item> \<open>validDate lib s\<close> tells whether \<open>new Date(s)\<close> is a date at all (not \<open>Invalid Date\<close>);
  \<^item> \<open>getWeek lib s\<close> is \<open>getWeek(new Date(s), { weekStartsOn: 1 })\<close>;
  \<^item> \<open>getFullYear lib s\<close> is \<open>new Date(s).getFullYear()\<close>.
  The sorts of the source compare \<open>getTime\<close> values. On an \<open>Invalid Date\<close> the time is \<open>NaN\<close>,
  the comparator yields \<open>NaN\<close>, and ECMAScript leaves the order that \<open>Array.prototype.sort\<close>
  produces to the engine. That order is a parameter too: \<open>engineOrder lib es i\<close> is the rank
  that the engine gives to the element at index \<open>i\<close> of the array \<open>es\<close>.
\<close>

record DateLib =
  getTime :: "string \<Rightarrow> int"
  validDate :: "string \<Rightarrow> bool"
  getWeek :: "string \<Rightarrow> int"
  getFullYear :: "string \<Rightarrow> int"
  engineOrder :: "PrEintraege list \<Rightarrow> nat \<Rightarrow> int"

text \<open>
  \<open>a.fields.date ? new Date(a.fields.date).getTime() : 0\<close>, with \<open>None\<close> for the \<open>NaN\<close> of an
  \<open>Invalid Date\<close>.
\<close>

definition entryTime :: "DateLib \<Rightarrow> PrEintraege \<Rightarrow> int option" where
  "entryTime lib pr =
     (case date pr of
        None \<Rightarrow> Some 0
      | Some s \<Rightarrow>
          if s = [] then Some 0
          else if validDate lib s then Some (getTime lib s)
          else None)"

text \<open>All times of the array are numbers: the comparators of the source are consistent.\<close>

definition consistentTimes :: "DateLib \<Rightarrow> PrEintraege list \<Rightarrow> bool" where
  "consistentTimes lib es = list_all (\<lambda>pr. entryTime lib pr \<noteq> None) es"

text \<open>The time as a number, read only where it is one.\<close>

definition timeOf :: "DateLib \<Rightarrow> PrEintraege \<Rightarrow> int" where
  "timeOf lib pr = (case entryTime lib pr of None \<Rightarrow> 0 | Some t \<Rightarrow> t)"

text \<open>The array in the order of the engine's ranks: a rearrangement of it, whatever they are.\<close>

definition engineSort :: "DateLib \<Rightarrow> PrEintraege list \<Rightarrow> PrEintraege list" where
  "engineSort lib es = map (\<lambda>i. es ! i) (sort_key (engineOrder lib es) [0..<length es])"

text \<open>
  \<open>Array.prototype.sort\<close> is stable. With the comparator \<open>dateB - dateA\<close> it sorts by
  descending time, with \<open>dateA - dateB\<close> by ascending time; entries of equal time keep
  their order. With a \<open>NaN\<close> among the times the order is the engine's.
\<close>

definition sortNewestFirst :: "DateLib \<Rightarrow> PrEintraege list \<Rightarrow> PrEintraege list" where
  "sortNewestFirst lib es =
     (if consistentTimes lib es then sort_key (\<lambda>pr. - timeOf lib pr) es
      else engineSort lib es)"

definition sortOldestFirst :: "DateLib \<Rightarrow> PrEintraege list \<Rightarrow> PrEintraege list" where
  "sortOldestFirst lib es =
     (if consistentTimes lib es then sort_key (timeOf lib) es
      else engineSort lib es)"

section \<open>Aggregation index: \<open>loadData\<close>\<close>

definition exercisePRs :: "DateLib \<Rightarrow> PrEintraege list \<Rightarrow> Uebungen \<Rightarrow> PrEintraege list" where
  "exercisePRs lib prEintraege ex =
     sortNewestFirst lib
       (filter (\<lambda>pr. extractRecordId (exercise_id pr) = Some (ue_record_id ex)) prEintraege)"

text \<open>The two \<open>reduce\<close> calls, both starting from 0.\<close>

definition reduceBestKg :: "PrEintraege list \<Rightarrow> real" where
  "reduceBestKg ps = fold (\<lambda>pr m. max m (or0 (weight_kg pr))) ps 0"

definition reduceBestReps :: "PrEintraege list \<Rightarrow> int" where
  "reduceBestReps ps = fold (\<lambda>pr m. max m (or0 (reps pr))) ps 0"

text \<open>The callback of \<open>uebungen.map\<close>; \<open>exercisePRs[0]\<close> is \<open>undefined\<close> on an empty array.\<close>

definition exerciseWithPRs :: "DateLib \<Rightarrow> PrEintraege list \<Rightarrow> Uebungen \<Rightarrow> ExerciseWithPRs" where
  "exerciseWithPRs lib prEintraege ex =
     (let ps = exercisePRs lib prEintraege ex;
          bestKgV = reduceBestKg ps;
          bestRepsV = reduceBestReps ps;
          lastPRV = (case ps of [] \<Rightarrow> None | p # _ \<Rightarrow> Some p)
      in \<lparr> ue_record_id = ue_record_id ex, ue_name = ue_name ex,
           prs = ps,
           bestKg = (if bestKgV > 0 then Some bestKgV else None),
           bestReps = (if bestRepsV > 0 then Some bestRepsV else None),
           lastPR = lastPRV \<rparr>)"

definition exercisesWithPRs :: "DateLib \<Rightarrow> Uebungen list \<Rightarrow> PrEintraege list \<Rightarrow> ExerciseWithPRs list" where
  "exercisesWithPRs lib uebungen prEintraege = map (exerciseWithPRs lib prEintraege) uebungen"


text \<open>
  A calendar for concrete runs, holding the dates used in them: each with its time in
  milliseconds, its year and its week (weeks from Monday, the week of 1 January being
  week 1, as \<open>getWeek\<close> of \<open>date-fns\<close> numbers them; the last week of December 2023 is
  week 53 of 2023). Every other string is an \<open>Invalid Date\<close>. No sort of a concrete run
  depends on the engine's order, which is taken to leave the array as it is.
\<close>

definition sampleDates :: "(string \<times> int \<times> int \<times> int) list" where
  "sampleDates =
     [(''2023-12-20'', 1703030400000, 2023, 52),
      (''2023-12-27'', 1703635200000, 2023, 53),
      (''2024-01-03'', 1704240000000, 2024, 1),
      (''2024-03-04'', 1709510400000, 2024, 10),
      (''2024-03-11'', 1710115200000, 2024, 11),
      (''2024-03-18'', 1710720000000, 2024, 12),
      (''2024-03-20'', 1710892800000, 2024, 12),
      (''2024-03-25'', 1711324800000, 2024, 13),
      (''2024-04-03'', 1712102400000, 2024, 14)]"

definition sampleLib :: DateLib where
  "sampleLib =
     \<lparr> getTime = (\<lambda>s. case map_of sampleDates s of Some (t, y, w) \<Rightarrow> t | None \<Rightarrow> 0),
       validDate = (\<lambda>s. map_of sampleDates s \<noteq> None),
       getWeek = (\<lambda>s. case map_of sampleDates s of Some (t, y, w) \<Rightarrow> w | None \<Rightarrow> 0),
       getFullYear = (\<lambda>s. case map_of sampleDates s of Some (t, y, w) \<Rightarrow> y | None \<Rightarrow> 0),
       engineOrder = (\<lambda>es i. int i) \<rparr>"

definition benchId :: string where
  "benchId = ''aaaaaaaaaaaaaaaaaaaa0001''"

definition plankId :: string where
  "plankId = ''bbbbbbbbbbbbbbbbbbbb0002''"

definition bench :: Uebungen where
  "bench = \<lparr> ue_record_id = benchId, ue_name = Some ''Bench Press'' \<rparr>"

definition plank :: Uebungen where
  "plank = \<lparr> ue_record_id = plankId, ue_name = Some ''Plank'' \<rparr>"

section \<open>Numbers in double precision\<close>

text \<open>
  JavaScript rounds the exact result of every arithmetic operation to the nearest double
  (IEEE 754 binary64: 53 significant bits, a tie going to the even significand).
  \<open>toDouble\<close> is that rounding of a real number. The range of the exponent is not bounded
  here: overflow to \<open>Infinity\<close> and the subnormal numbers (magnitudes beyond about
  \<open>1.8e308\<close> and below about \<open>2.2e-308\<close>) are outside the model, as \<open>NaN\<close> is.
\<close>

definition roundHalfEven :: "real \<Rightarrow> int" where
  "roundHalfEven x =
     (let f = \<lfloor>x\<rfloor>; d = x - of_int f
      in if d < 1 / 2 then f
         else if d > 1 / 2 then f + 1
         else if even f then f else f + 1)"

definition toDouble :: "real \<Rightarrow> real" where
  "toDouble x =
     (if x = 0 then 0
      else (let ulp = 2 powr of_int (\<lfloor>log 2 \<bar>x\<bar>\<rfloor> - 52)
            in of_int (roundHalfEven (x / ulp)) * ulp))"

text \<open>The operators \<open>+\<close>, \<open>-\<close>, \<open>*\<close> and \<open>/\<close> on numbers (no divisor of the source is 0).\<close>

definition jsAdd :: "real \<Rightarrow> real \<Rightarrow> real" where
  "jsAdd x y = toDouble (x + y)"

definition jsSub :: "real \<Rightarrow> real \<Rightarrow> real" where
  "jsSub x y = toDouble (x - y)"

definition jsMul :: "real \<Rightarrow> real \<Rightarrow> real" where
  "jsMul x y = toDouble (x * y)"

definition jsDiv :: "real \<Rightarrow> real \<Rightarrow> real" where
  "jsDiv x y = toDouble (x / y)"

section \<open>Stats calculator: \<open>statsData\<close>\<close>

text \<open>
  \<open>allPrEntries\<close> is the array that \<open>loadData\<close> hands to \<open>setAllPrEntries\<close> and then
  sorts in place for the recency list; the functions of this section take it as it is
  when \<open>statsData\<close> runs.
\<close>

text \<open>
  A JavaScript object with string keys, as the list of its entries in insertion order
  (the order of \<open>Object.entries\<close> and \<open>Object.values\<close> for keys that are not array
  indices): assigning to a key that is present keeps its place, a new key goes to the end.
\<close>

fun objSet :: "'k \<Rightarrow> 'v \<Rightarrow> ('k \<times> 'v) list \<Rightarrow> ('k \<times> 'v) list" where
  "objSet k v [] = [(k, v)]"
| "objSet k v ((k', v') # kvs) = (if k' = k then (k, v) # kvs else (k', v') # objSet k v kvs)"

text \<open>A JavaScript \<open>Set\<close>, as the list of its members in insertion order.\<close>

definition setAdd :: "'a \<Rightarrow> 'a list \<Rightarrow> 'a list" where
  "setAdd x s = (if x \<in> set s then s else s @ [x])"

text \<open>\<open>Boolean(v)\<close> and \<open>if (v)\<close> on an optional string.\<close>

definition truthyStr :: "string option \<Rightarrow> bool" where
  "truthyStr v = (case v of None \<Rightarrow> False | Some s \<Rightarrow> s \<noteq> [])"

definition uniqueDates :: "PrEintraege list \<Rightarrow> string option list" where
  "uniqueDates allPrEntries = fold setAdd (filter truthyStr (map dateKey allPrEntries)) []"

definition totalSessions :: "PrEintraege list \<Rightarrow> nat" where
  "totalSessions allPrEntries = length (uniqueDates allPrEntries)"

subsection \<open>Top exercises\<close>

definition frequencyStep :: "PrEintraege \<Rightarrow> (string \<times> nat) list \<Rightarrow> (string \<times> nat) list" where
  "frequencyStep pr exerciseFrequency =
     (case extractRecordId (exercise_id pr) of
        None \<Rightarrow> exerciseFrequency
      | Some exId \<Rightarrow> objSet exId (or0 (map_of exerciseFrequency exId) + 1) exerciseFrequency)"

definition exerciseFrequency :: "PrEintraege list \<Rightarrow> (string \<times> nat) list" where
  "exerciseFrequency allPrEntries = fold frequencyStep allPrEntries []"

text \<open>\<open>.sort((a, b) => b[1] - a[1]).slice(0, 5).map(([id]) => id)\<close>\<close>

definition topExerciseIds :: "PrEintraege list \<Rightarrow> string list" where
  "topExerciseIds allPrEntries =
     map fst (take 5 (sort_key (\<lambda>(exId, n). - int n) (exerciseFrequency allPrEntries)))"

definition topExercises :: "ExerciseWithPRs list \<Rightarrow> PrEintraege list \<Rightarrow> ExerciseWithPRs list" where
  "topExercises exercises allPrEntries =
     filter (\<lambda>ex. ue_record_id ex \<in> set (topExerciseIds allPrEntries)) exercises"

subsection \<open>Weekly streak\<close>

text \<open>
  The key of a date in \<open>weeklyTraining\<close> is \<open>year * 100 + weekNum\<close>; for an \<open>Invalid Date\<close>
  both numbers are \<open>NaN\<close> and so is the key, written \<open>None\<close> here.
\<close>

definition weekKey :: "DateLib \<Rightarrow> string \<Rightarrow> int option" where
  "weekKey lib dateStr =
     (if validDate lib dateStr
      then Some (getFullYear lib dateStr * 100 + getWeek lib dateStr)
      else None)"

definition weeklyStep :: "DateLib \<Rightarrow> string option \<Rightarrow> (int option \<rightharpoonup> nat) \<Rightarrow> (int option \<rightharpoonup> nat)" where
  "weeklyStep lib dateStr weeklyTraining =
     (case dateStr of
        None \<Rightarrow> weeklyTraining
      | Some s \<Rightarrow>
          if s = [] then weeklyTraining
          else (let key = weekKey lib s
                in weeklyTraining(key \<mapsto> or0 (weeklyTraining key) + 1)))"

definition weeklyTraining :: "DateLib \<Rightarrow> PrEintraege list \<Rightarrow> (int option \<rightharpoonup> nat)" where
  "weeklyTraining lib allPrEntries = fold (weeklyStep lib) (uniqueDates allPrEntries) Map.empty"

text \<open>\<open>weeklyTraining[key] >= 1\<close>, false on a key that is absent.\<close>

definition hasTraining :: "(int option \<rightharpoonup> nat) \<Rightarrow> int \<Rightarrow> bool" where
  "hasTraining wt key = (case wt (Some key) of None \<Rightarrow> False | Some n \<Rightarrow> n \<ge> 1)"

text \<open>The remainder \<open>a % b\<close> of JavaScript takes the sign of \<open>a\<close>.\<close>

definition jsRem :: "int \<Rightarrow> int \<Rightarrow> int" where
  "jsRem a b = (if a \<ge> 0 then a mod b else - ((- a) mod b))"

text \<open>The key at which the walk starts: the current week, or the week before it.\<close>

definition startWeekKey :: "(int option \<rightharpoonup> nat) \<Rightarrow> int \<Rightarrow> int \<Rightarrow> int" where
  "startWeekKey wt currentWeekNum currentYear =
     (let currentWeekKey = currentYear * 100 + currentWeekNum;
          hasCurrentWeekTraining = hasTraining wt currentWeekKey
      in if \<not> hasCurrentWeekTraining
         then (if currentWeekNum = 1 then (currentYear - 1) * 100 + 52
               else currentYear * 100 + (currentWeekNum - 1))
         else currentWeekKey)"

text \<open>The \<open>for\<close> loop; the first argument counts the rounds that are left of the 52.\<close>

fun streakLoop :: "nat \<Rightarrow> (int option \<rightharpoonup> nat) \<Rightarrow> int \<Rightarrow> int \<Rightarrow> nat \<Rightarrow> nat" where
  "streakLoop 0 wt checkYear checkWeek streak = streak"
| "streakLoop (Suc i) wt checkYear checkWeek streak =
     (if hasTraining wt (checkYear * 100 + checkWeek)
      then (if checkWeek - 1 < 1
            then streakLoop i wt (checkYear - 1) 52 (streak + 1)
            else streakLoop i wt checkYear (checkWeek - 1) (streak + 1))
      else streak)"

text \<open>
  \<open>currentWeekNum\<close> and \<open>currentYear\<close> are \<open>getWeek(now, { weekStartsOn: 1 })\<close> and
  \<open>now.getFullYear()\<close> for \<open>now = new Date()\<close>.
\<close>

definition currentStreak :: "DateLib \<Rightarrow> int \<Rightarrow> int \<Rightarrow> PrEintraege list \<Rightarrow> nat" where
  "currentStreak lib currentWeekNum currentYear allPrEntries =
     (let wt = weeklyTraining lib allPrEntries;
          currentWeekKey = startWeekKey wt currentWeekNum currentYear;
          checkYear = currentWeekKey div 100;
          checkWeek = jsRem currentWeekKey 100
      in streakLoop 52 wt checkYear checkWeek 0)"

text \<open>
  The words of the specification, for comparison with the code. A week runs from Monday to
  Sunday. \<open>calendarWeek t\<close> numbers the week of the time stamp \<open>t\<close> (milliseconds, as
  \<open>getTime\<close> gives them, days taken in UTC) from the epoch, 1 January 1970 having been a
  Thursday: weeks that follow each other in the calendar have numbers that follow each
  other.
\<close>

definition calendarWeek :: "int \<Rightarrow> int" where
  "calendarWeek t = (t div 86400000 + 3) div 7"

text \<open>A week with a session: some entry has a date key that is a valid date of that week.\<close>

definition specTrained :: "DateLib \<Rightarrow> PrEintraege list \<Rightarrow> int \<Rightarrow> bool" where
  "specTrained lib allPrEntries k =
     list_ex (\<lambda>pr. case dateKey pr of
                     None \<Rightarrow> False
                   | Some s \<Rightarrow> s \<noteq> [] \<and> validDate lib s \<and> calendarWeek (getTime lib s) = k)
       allPrEntries"

text \<open>
  The walk of the specification: backwards one week at a time, counting the weeks with a
  session, up to the first week without one, \<open>n\<close> rounds at most.
\<close>

primrec specWalk :: "nat \<Rightarrow> (int \<Rightarrow> bool) \<Rightarrow> int \<Rightarrow> nat" where
  "specWalk 0 trained k = 0"
| "specWalk (Suc n) trained k = (if trained k then Suc (specWalk n trained (k - 1)) else 0)"

text \<open>
  The streak of the specification at the time \<open>now\<close>: the walk starts at the current week
  if it has a session, else at the week before it, and makes 52 rounds at most.
\<close>

definition specStreak :: "DateLib \<Rightarrow> int \<Rightarrow> PrEintraege list \<Rightarrow> nat" where
  "specStreak lib now allPrEntries =
     (let current = calendarWeek now;
          start = (if specTrained lib allPrEntries current then current else current - 1)
      in specWalk 52 (specTrained lib allPrEntries) start)"


subsection \<open>Strength gain\<close>

definition pushEntry :: "PrEintraege \<Rightarrow> (string \<times> PrEintraege list) list \<Rightarrow> (string \<times> PrEintraege list) list" where
  "pushEntry pr entriesByExercise =
     (case extractRecordId (exercise_id pr) of
        None \<Rightarrow> entriesByExercise
      | Some exId \<Rightarrow>
          objSet exId
            ((case map_of entriesByExercise exId of None \<Rightarrow> [] | Some l \<Rightarrow> l) @ [pr])
            entriesByExercise)"

definition entriesByExercise :: "PrEintraege list \<Rightarrow> (string \<times> PrEintraege list) list" where
  "entriesByExercise allPrEntries = fold pushEntry allPrEntries []"

text \<open>
  \<open>Math.round\<close> rounds to the nearest integer, a half upwards; its result is exact.
\<close>

definition Math_round :: "real \<Rightarrow> real" where
  "Math_round x = of_int \<lfloor>x + 1 / 2\<rfloor>"

text \<open>
  The callback of \<open>Object.values(entriesByExercise).forEach\<close>, on the pair of
  \<open>totalGainPercent\<close> and \<open>exercisesWithGain\<close>. \<open>entries.sort\<close> sorts in place, so the
  maximum is taken over the sorted array; the array has two elements at least where
  \<open>sorted[0]\<close> is read.
\<close>

definition gainStep :: "DateLib \<Rightarrow> PrEintraege list \<Rightarrow> real \<times> nat \<Rightarrow> real \<times> nat" where
  "gainStep lib entries acc =
     (if length entries < 2 then acc
      else (case sortOldestFirst lib entries of
              [] \<Rightarrow> acc
            | s # ss \<Rightarrow>
                (let firstWeight = or0 (weight_kg s);
                     currentBestWeight =
                       Math_max (or0 (weight_kg s)) (map (\<lambda>e. or0 (weight_kg e)) ss)
                 in if firstWeight > 0 \<and> currentBestWeight > firstWeight
                    then (let gainPercent =
                                jsMul (jsDiv (jsSub currentBestWeight firstWeight) firstWeight) 100
                          in (jsAdd (fst acc) gainPercent, snd acc + 1))
                    else acc)))"

definition strengthGainPercent :: "DateLib \<Rightarrow> PrEintraege list \<Rightarrow> real" where
  "strengthGainPercent lib allPrEntries =
     (let acc = fold (gainStep lib) (map snd (entriesByExercise allPrEntries)) (0, 0);
          totalGainPercent = fst acc;
          exercisesWithGain = snd acc
      in if exercisesWithGain > 0
         then jsDiv (Math_round (jsMul (jsDiv totalGainPercent (real exercisesWithGain)) 10)) 10
         else 0)"

subsection \<open>The result of \<open>statsData\<close>\<close>

text \<open>
  \<open>statsData\<close> is \<open>null\<close> when there is no entry. (Its field \<open>sessionsPerWeek\<close>, a string
  made by \<open>toFixed\<close>, is not modelled.)
\<close>

record StatsData =
  stats_totalSessions :: nat
  stats_strengthGainPercent :: real
  stats_currentStreak :: nat
  stats_topExercises :: "ExerciseWithPRs list"

definition statsData :: "DateLib \<Rightarrow> int \<Rightarrow> int \<Rightarrow> ExerciseWithPRs list \<Rightarrow> PrEintraege list
    \<Rightarrow> StatsData option" where
  "statsData lib currentWeekNum currentYear exercises allPrEntries =
     (if length allPrEntries = 0 then None
      else Some \<lparr> stats_totalSessions = totalSessions allPrEntries,
                  stats_strengthGainPercent = strengthGainPercent lib allPrEntries,
                  stats_currentStreak = currentStreak lib currentWeekNum currentYear allPrEntries,
                  stats_topExercises = topExercises exercises allPrEntries \<rparr>)"

subsection \<open>The strength gain in the words of the specification\<close>

text \<open>
  The exercises that the entries refer to, in the order in which they first occur, each
  with its entries.
\<close>

definition specExerciseIds :: "PrEintraege list \<Rightarrow> string list" where
  "specExerciseIds es = fold setAdd (List.map_filter (\<lambda>pr. extractRecordId (exercise_id pr)) es) []"

definition specEntriesOf :: "PrEintraege list \<Rightarrow> string \<Rightarrow> PrEintraege list" where
  "specEntriesOf es exId = filter (\<lambda>pr. extractRecordId (exercise_id pr) = Some exId) es"

definition specGroups :: "PrEintraege list \<Rightarrow> PrEintraege list list" where
  "specGroups es = map (specEntriesOf es) (specExerciseIds es)"

text \<open>
  The date of an entry as a time, an entry without date counting as the epoch, and the
  condition that no date of the entries is an \<open>Invalid Date\<close>.
\<close>

definition specTime :: "DateLib \<Rightarrow> PrEintraege \<Rightarrow> int" where
  "specTime lib e = (case date e of None \<Rightarrow> 0 | Some s \<Rightarrow> if s = [] then 0 else getTime lib s)"

definition specDatesValid :: "DateLib \<Rightarrow> PrEintraege list \<Rightarrow> bool" where
  "specDatesValid lib es =
     list_all (\<lambda>e. case date e of None \<Rightarrow> True | Some s \<Rightarrow> s = [] \<or> validDate lib s) es"

text \<open>The earliest entry of a group: the first, in stored order, of those of least date.\<close>

definition specEarliest :: "DateLib \<Rightarrow> PrEintraege list \<Rightarrow> PrEintraege option" where
  "specEarliest lib g =
     find (\<lambda>e. list_all (\<lambda>e'. specTime lib e \<le> specTime lib e') g) g"

definition specBaseline :: "DateLib \<Rightarrow> PrEintraege list \<Rightarrow> real" where
  "specBaseline lib g = (case specEarliest lib g of None \<Rightarrow> 0 | Some e \<Rightarrow> or0 (weight_kg e))"

definition specCurrentBest :: "PrEintraege list \<Rightarrow> real" where
  "specCurrentBest g = Max ((\<lambda>e. or0 (weight_kg e)) ` set g)"

definition specQualifies :: "DateLib \<Rightarrow> PrEintraege list \<Rightarrow> bool" where
  "specQualifies lib g \<longleftrightarrow>
     2 \<le> length g \<and> 0 < specBaseline lib g \<and> specBaseline lib g < specCurrentBest g"

text \<open>The gain of an exercise and the rounded mean, in exact arithmetic.\<close>

definition specGain :: "DateLib \<Rightarrow> PrEintraege list \<Rightarrow> real" where
  "specGain lib g = (specCurrentBest g - specBaseline lib g) / specBaseline lib g * 100"

definition roundOneDecimal :: "real \<Rightarrow> real" where
  "roundOneDecimal x = of_int \<lfloor>x * 10 + 1 / 2\<rfloor> / 10"

definition specStrengthGain :: "DateLib \<Rightarrow> PrEintraege list \<Rightarrow> real" where
  "specStrengthGain lib es =
     (let qualifying = filter (specQualifies lib) (specGroups es)
      in if qualifying = [] then 0
         else roundOneDecimal
                (sum_list (map (specGain lib) qualifying) / real (length qualifying)))"

text \<open>
  The same in double precision: the gain with every operation rounded, the gains added
  one after the other from 0 in the order of the exercises, the sum divided by their
  number, and the mean rounded to one decimal by \<open>Math.round(mean * 10) / 10\<close>.
\<close>

definition doubleGain :: "DateLib \<Rightarrow> PrEintraege list \<Rightarrow> real" where
  "doubleGain lib g =
     jsMul (jsDiv (jsSub (specCurrentBest g) (specBaseline lib g)) (specBaseline lib g)) 100"

definition doubleStrengthGain :: "DateLib \<Rightarrow> PrEintraege list \<Rightarrow> real" where
  "doubleStrengthGain lib es =
     (let qualifying = filter (specQualifies lib) (specGroups es)
      in if qualifying = [] then 0
         else jsDiv
                (Math_round
                   (jsMul (jsDiv (foldl jsAdd 0 (map (doubleGain lib) qualifying))
                                 (real (length qualifying))) 10))
                10)"

text \<open>
  The weights for which the double arithmetic above stays far from overflow and from the
  subnormal numbers: 0, or between a milligram and a thousand tons.
\<close>

definition weightsInRange :: "PrEintraege list \<Rightarrow> bool" where
  "weightsInRange es =
     list_all (\<lambda>e. or0 (weight_kg e) = 0
                 \<or> (1 / 10 ^ 6 \<le> or0 (weight_kg e) \<and> or0 (weight_kg e) \<le> 10 ^ 6)) es"

section \<open>Facts about \<open>Math_max\<close>\<close>

lemma Math_max_eq_Max: "Math_max x xs = Max (set (x # xs))"
proof (induction xs arbitrary: x)
  case Nil
  show ?case by simp
next
  case (Cons y ys)
  have "Math_max x (y # ys) = Max (insert (max x y) (set ys))"
    using Cons.IH [of "max x y"] by simp
  also have "\<dots> = Max (set (x # y # ys))"
  proof (cases "set ys = {}")
    case True
    then show ?thesis by simp
  next
    case False
    then show ?thesis
      by (simp add: max.assoc)
  qed
  finally show ?case .
qed

lemma Math_max_map: "Math_max (f e) (map f es) = Max (f ` set (e # es))"
  by (simp add: Math_max_eq_Max)

lemma Math_max_ge: "y \<in> set (x # xs) \<Longrightarrow> y \<le> Math_max x xs"
  by (simp only: Math_max_eq_Max) (rule Max_ge, simp_all)

lemma maxRepsAtWeight_Max:
  "sw \<noteq> [] \<Longrightarrow> maxRepsAtWeight sw = Max ((\<lambda>e. or0 (reps e)) ` set sw)"
  by (cases sw) (simp_all add: maxRepsAtWeight_def Math_max_eq_Max)

lemma set_sameWeightEntries:
  "set (sameWeightEntries w es) = {e \<in> set es. weight_kg e = Some w}"
  by (simp add: sameWeightEntries_def)

lemma sameWeightEntries_Nil_iff:
  "sameWeightEntries w es = [] \<longleftrightarrow> \<not> (\<exists>e\<in>set es. weight_kg e = Some w)"
  by (auto simp: sameWeightEntries_def filter_empty_conv)

lemma analyzePR_isRepPR:
  "es \<noteq> [] \<Longrightarrow> isRepPR (analyzePR w r es) =
     (r > maxRepsAtWeight (sameWeightEntries w es) \<and> sameWeightEntries w es \<noteq> [])"
  by (cases es) (simp_all add: Let_def)

lemma analyzePR_best_reps:
  "es \<noteq> [] \<Longrightarrow> best_reps (previousBest (analyzePR w r es)) =
     maxRepsAtWeight (sameWeightEntries w es)"
  by (cases es) (simp_all add: Let_def)

lemma analyzePR_isWeightPR:
  "isWeightPR (analyzePR w r (p # ps)) =
     (w > Math_max (or0 (weight_kg p)) (map (\<lambda>e. or0 (weight_kg e)) ps))"
  by (simp add: Let_def)

section \<open>Claims about the PR classifier\<close>

text \<open>
  C7. On an empty prior history \<open>analyzePR\<close> reports all three kinds of record, and the
  previous best is zero in weight, repetitions and volume, whatever the new weight and the
  new repetitions are.
\<close>

theorem C7_empty_history:
  "analyzePR newWeight newReps [] =
     \<lparr> isWeightPR = True, isRepPR = True, isVolumePR = True,
       previousBest = \<lparr> weight = 0, best_reps = 0, volume = 0 \<rparr> \<rparr>"
  by simp

text \<open>
  C1. On a non-empty prior history, \<open>isRepPR\<close> holds exactly when some prior entry was
  logged at exactly the new weight and the new repetitions exceed the maximum of the
  repetitions over the prior entries at that weight (a missing \<open>reps\<close> counting as 0). So
  when no prior entry is at the new weight, \<open>isRepPR\<close> is false, however large the new
  repetitions are. The reported previous best in repetitions is that maximum over the
  weight-matched entries, and 0 when there is none.
\<close>

theorem C1_rep_pr_weight_matched:
  assumes "priorEntries \<noteq> []"
  shows "(isRepPR (analyzePR newWeight newReps priorEntries) \<longleftrightarrow>
            (\<exists>e\<in>set priorEntries. weight_kg e = Some newWeight) \<and>
            newReps > Max ((\<lambda>e. or0 (reps e)) `
                           {e \<in> set priorEntries. weight_kg e = Some newWeight}))
       \<and> ((\<forall>e\<in>set priorEntries. weight_kg e \<noteq> Some newWeight) \<longrightarrow>
            \<not> isRepPR (analyzePR newWeight newReps priorEntries))
       \<and> best_reps (previousBest (analyzePR newWeight newReps priorEntries)) =
            (if \<exists>e\<in>set priorEntries. weight_kg e = Some newWeight
             then Max ((\<lambda>e. or0 (reps e)) `
                       {e \<in> set priorEntries. weight_kg e = Some newWeight})
             else 0)"
proof (cases "sameWeightEntries newWeight priorEntries = []")
  case True
  then have none: "\<not> (\<exists>e\<in>set priorEntries. weight_kg e = Some newWeight)"
    by (simp add: sameWeightEntries_Nil_iff)
  have "maxRepsAtWeight (sameWeightEntries newWeight priorEntries) = 0"
    using True by (simp add: maxRepsAtWeight_def)
  with True none assms show ?thesis
    by (simp add: analyzePR_isRepPR analyzePR_best_reps)
next
  case False
  then have some: "\<exists>e\<in>set priorEntries. weight_kg e = Some newWeight"
    by (simp add: sameWeightEntries_Nil_iff)
  have "maxRepsAtWeight (sameWeightEntries newWeight priorEntries) =
          Max ((\<lambda>e. or0 (reps e)) ` {e \<in> set priorEntries. weight_kg e = Some newWeight})"
    using False by (simp add: maxRepsAtWeight_Max set_sameWeightEntries)
  with False some assms show ?thesis
    by (simp add: analyzePR_isRepPR analyzePR_best_reps) blast
qed

theorem C1_rep_pr_weight_matched_witness:
  "isRepPR (analyzePR 100 6 [mkEntry ''p1'' None (Some ''2024-01-01'') (Some 100) (Some 5)])
   \<and> best_reps (previousBest
         (analyzePR 100 6 [mkEntry ''p1'' None (Some ''2024-01-01'') (Some 100) (Some 5)])) = 5
   \<and> \<not> isRepPR (analyzePR 105 9 [mkEntry ''p1'' None (Some ''2024-01-01'') (Some 100) (Some 5)])"
  using C1_rep_pr_weight_matched
          [of "[mkEntry ''p1'' None (Some ''2024-01-01'') (Some 100) (Some 5)]" 100 6]
        C1_rep_pr_weight_matched
          [of "[mkEntry ''p1'' None (Some ''2024-01-01'') (Some 100) (Some 5)]" 105 9]
  by (simp add: mkEntry_def or0_def)

text \<open>
  C10. On a non-empty prior history a weight record excludes a repetition record: when the
  new weight is strictly above every prior weight, no prior entry is at exactly that
  weight, so the weight-matched entries are none and \<open>isRepPR\<close> is false.
\<close>

theorem C10_weight_pr_excludes_rep_pr:
  assumes "priorEntries \<noteq> []"
    and "isWeightPR (analyzePR newWeight newReps priorEntries)"
  shows "\<not> isRepPR (analyzePR newWeight newReps priorEntries)"
proof -
  from assms(1) obtain p ps where ps: "priorEntries = p # ps"
    by (cases priorEntries) auto
  let ?m = "Math_max (or0 (weight_kg p)) (map (\<lambda>e. or0 (weight_kg e)) ps)"
  from assms(2) have above: "newWeight > ?m"
    by (simp only: ps analyzePR_isWeightPR)
  have "sameWeightEntries newWeight priorEntries = []"
  proof (rule ccontr)
    assume "sameWeightEntries newWeight priorEntries \<noteq> []"
    then obtain e where e: "e \<in> set priorEntries" "weight_kg e = Some newWeight"
      by (auto simp: sameWeightEntries_Nil_iff)
    from e(1) have "or0 (weight_kg e) \<in> set (or0 (weight_kg p) # map (\<lambda>e. or0 (weight_kg e)) ps)"
      by (auto simp: ps)
    then have "or0 (weight_kg e) \<le> ?m"
      by (rule Math_max_ge)
    with e(2) above show False
      by (simp add: or0_def)
  qed
  with assms(1) show ?thesis
    by (simp add: analyzePR_isRepPR)
qed

theorem C10_weight_pr_excludes_rep_pr_witness:
  "isWeightPR (analyzePR 105 9 [mkEntry ''p1'' None (Some ''2024-01-01'') (Some 100) (Some 5)])
   \<and> \<not> isRepPR (analyzePR 105 9 [mkEntry ''p1'' None (Some ''2024-01-01'') (Some 100) (Some 5)])"
proof -
  have w: "isWeightPR (analyzePR 105 9
             [mkEntry ''p1'' None (Some ''2024-01-01'') (Some 100) (Some 5)])"
    by (simp add: mkEntry_def or0_def Let_def)
  have ne: "[mkEntry ''p1'' None (Some ''2024-01-01'') (Some 100) (Some 5)] \<noteq> []"
    by simp
  from C10_weight_pr_excludes_rep_pr [OF ne w] w show ?thesis
    by simp
qed

section \<open>Facts about the reference resolver\<close>

lemma matchHere_longer: "length s > 24 \<Longrightarrow> matchHere s = None"
  by (simp add: matchHere_def)

lemma regexMatch_suffix:
  assumes "length r = 24" and "list_all isHexChar r"
  shows "regexMatch (pre @ r) = Some r"
proof (induction pre)
  case Nil
  from assms show ?case
    by (cases r) (simp_all add: matchHere_def)
next
  case (Cons c cs)
  have "matchHere (c # cs @ r) = None"
    using assms(1) by (simp add: matchHere_longer)
  with Cons.IH show ?case by simp
qed

lemma regexMatch_Some:
  "regexMatch u = Some m \<Longrightarrow> length m = 24 \<and> list_all isHexChar m \<and> suffix m u"
proof (induction u)
  case Nil
  then show ?case by (simp add: matchHere_def split: if_splits)
next
  case (Cons c cs)
  show ?case
  proof (cases "matchHere (c # cs)")
    case None
    with Cons.prems have "regexMatch cs = Some m" by simp
    from Cons.IH [OF this] show ?thesis
      by (simp add: suffix_Cons)
  next
    case (Some m')
    with Cons.prems have "m' = m" by simp
    with Some show ?thesis
      by (auto simp: matchHere_def split: if_splits)
  qed
qed

section \<open>Claim about the reference format\<close>

text \<open>
  C9. Round trip of the reference format: for every application id and every record id
  that consists of exactly 24 hexadecimal characters, \<open>extractRecordId\<close> applied to
  \<open>createRecordUrl appId recordId\<close> gives back that record id.
\<close>

theorem C9_record_url_roundtrip:
  assumes "length recordId = 24" and "list_all isHexChar recordId"
  shows "extractRecordId (Some (createRecordUrl appId recordId)) = Some recordId"
proof -
  have "createRecordUrl appId recordId =
          (''https://my.living-apps.de/rest/apps/'' @ appId @ ''/records/'') @ recordId"
    by (simp add: createRecordUrl_def)
  then have "regexMatch (createRecordUrl appId recordId) = Some recordId"
    by (simp only: regexMatch_suffix [OF assms])
  then show ?thesis
    by (simp add: extractRecordId_def createRecordUrl_def)
qed

theorem C9_record_url_roundtrip_witness:
  "length ''694D77f4b641f5b879e4e810'' = 24
   \<and> list_all isHexChar ''694D77f4b641f5b879e4e810''
   \<and> extractRecordId (Some (createRecordUrl APP_IDS_UEBUNGEN ''694D77f4b641f5b879e4e810''))
       = Some ''694D77f4b641f5b879e4e810''"
proof -
  have l: "length ''694D77f4b641f5b879e4e810'' = 24" by simp
  have h: "list_all isHexChar ''694D77f4b641f5b879e4e810''" by (simp add: isHexChar_def)
  from C9_record_url_roundtrip [OF l h, of APP_IDS_UEBUNGEN] l h show ?thesis
    by simp
qed

section \<open>Facts about the calendar grouping\<close>

lemma prsByDate_snoc: "prsByDate (es @ [e]) = groupPush e (prsByDate es)"
  by (simp add: prsByDate_def)

lemma prsByDate_lookup:
  "prsByDate es d =
     (if d \<noteq> [] \<and> (\<exists>e\<in>set es. dateKey e = Some d)
      then Some (filter (\<lambda>e. dateKey e = Some d) es) else None)"
proof (induction es rule: rev_induct)
  case Nil
  show ?case by (simp add: prsByDate_def)
next
  case (snoc x xs)
  show ?case
  proof (cases "dateKey x")
    case None
    with snoc show ?thesis
      by (simp add: prsByDate_snoc groupPush_def)
  next
    case (Some k)
    show ?thesis
    proof (cases "k = []")
      case True
      with Some snoc show ?thesis
        by (auto simp: prsByDate_snoc groupPush_def)
    next
      case False
      show ?thesis
      proof (cases "d = k")
        case True
        with False Some snoc show ?thesis
          by (auto simp: prsByDate_snoc groupPush_def filter_empty_conv)
      next
        case False
        with \<open>k \<noteq> []\<close> Some snoc show ?thesis
          by (auto simp: prsByDate_snoc groupPush_def)
      qed
    qed
  qed
qed

lemma heatmap_count:
  "d \<noteq> [] \<Longrightarrow> (case prsByDate es d of None \<Rightarrow> 0 | Some l \<Rightarrow> length l) = entriesOn es d"
  by (auto simp: prsByDate_lookup entriesOn_def filter_empty_conv)

section \<open>Claim about the heatmap\<close>

text \<open>
  C8. For every calendar date the heatmap intensity is a step function of the number of
  entries logged on that date: no entry gives \<open>none\<close>, one or two give \<open>low\<close>, three or four
  give \<open>medium\<close>, five or more give \<open>high\<close>.
\<close>

theorem C8_heatmap_steps:
  assumes "dateStr \<noteq> []"
  shows "(entriesOn allPrEntries dateStr = 0 \<longrightarrow>
            getHeatmapIntensity (prsByDate allPrEntries) dateStr = none)
       \<and> (entriesOn allPrEntries dateStr \<in> {1, 2} \<longrightarrow>
            getHeatmapIntensity (prsByDate allPrEntries) dateStr = low)
       \<and> (entriesOn allPrEntries dateStr \<in> {3, 4} \<longrightarrow>
            getHeatmapIntensity (prsByDate allPrEntries) dateStr = medium)
       \<and> (5 \<le> entriesOn allPrEntries dateStr \<longrightarrow>
            getHeatmapIntensity (prsByDate allPrEntries) dateStr = high)"
  using assms by (auto simp: getHeatmapIntensity_def heatmap_count)

theorem C8_heatmap_steps_witness:
  "getHeatmapIntensity (prsByDate []) ''2024-03-04'' = none
   \<and> getHeatmapIntensity
        (prsByDate [mkEntry ''p1'' None (Some ''2024-03-04T10:00:00'') (Some 60) (Some 5),
                    mkEntry ''p2'' None (Some ''2024-03-05'') (Some 60) (Some 5)])
        ''2024-03-04'' = low
   \<and> getHeatmapIntensity
        (prsByDate [mkEntry ''p1'' None (Some ''2024-03-04'') (Some 60) (Some 5),
                    mkEntry ''p2'' None (Some ''2024-03-04'') (Some 65) (Some 5),
                    mkEntry ''p3'' None (Some ''2024-03-04'') (Some 70) (Some 5)])
        ''2024-03-04'' = medium
   \<and> getHeatmapIntensity
        (prsByDate [mkEntry ''p1'' None (Some ''2024-03-04'') (Some 60) (Some 5),
                    mkEntry ''p2'' None (Some ''2024-03-04'') (Some 65) (Some 5),
                    mkEntry ''p3'' None (Some ''2024-03-04'') (Some 70) (Some 5),
                    mkEntry ''p4'' None (Some ''2024-03-04'') (Some 75) (Some 5),
                    mkEntry ''p5'' None (Some ''2024-03-04'') (Some 80) (Some 5)])
        ''2024-03-04'' = high"
  using C8_heatmap_steps [of "''2024-03-04''" "[]"]
        C8_heatmap_steps [of "''2024-03-04''"
          "[mkEntry ''p1'' None (Some ''2024-03-04T10:00:00'') (Some 60) (Some 5),
            mkEntry ''p2'' None (Some ''2024-03-05'') (Some 60) (Some 5)]"]
        C8_heatmap_steps [of "''2024-03-04''"
          "[mkEntry ''p1'' None (Some ''2024-03-04'') (Some 60) (Some 5),
            mkEntry ''p2'' None (Some ''2024-03-04'') (Some 65) (Some 5),
            mkEntry ''p3'' None (Some ''2024-03-04'') (Some 70) (Some 5)]"]
        C8_heatmap_steps [of "''2024-03-04''"
          "[mkEntry ''p1'' None (Some ''2024-03-04'') (Some 60) (Some 5),
            mkEntry ''p2'' None (Some ''2024-03-04'') (Some 65) (Some 5),
            mkEntry ''p3'' None (Some ''2024-03-04'') (Some 70) (Some 5),
            mkEntry ''p4'' None (Some ''2024-03-04'') (Some 75) (Some 5),
            mkEntry ''p5'' None (Some ''2024-03-04'') (Some 80) (Some 5)]"]
  by (simp add: entriesOn_def dateKey_def mkEntry_def)

section \<open>Facts about the aggregation index\<close>

lemma fold_max_from:
  fixes a :: "'a::linorder"
  shows "fold (\<lambda>x m. max m (f x)) xs a = Max (insert a (f ` set xs))"
proof (induction xs arbitrary: a)
  case Nil
  show ?case by simp
next
  case (Cons x xs)
  have "fold (\<lambda>x m. max m (f x)) (x # xs) a = Max (insert (max a (f x)) (f ` set xs))"
    using Cons.IH [of "max a (f x)"] by simp
  also have "\<dots> = Max (insert a (f ` set (x # xs)))"
  proof (cases "set xs = {}")
    case True
    then show ?thesis by (simp add: max.commute)
  next
    case False
    then show ?thesis
      by (simp add: max.assoc)
  qed
  finally show ?case .
qed

lemma Max_insert_zero:
  fixes S :: "'a::{linorder,zero} set"
  assumes "finite S"
  shows "Max (insert 0 S) = (if \<exists>x\<in>S. x > 0 then Max S else 0)"
proof (cases "\<exists>x\<in>S. x > 0")
  case True
  then obtain x where x: "x \<in> S" "x > 0" by blast
  then have ne: "S \<noteq> {}" by blast
  from x assms have "x \<le> Max S" by simp
  with x(2) have "0 \<le> Max S" by simp
  with assms ne True show ?thesis
    by (simp add: max_def)
next
  case False
  then have le: "\<forall>x\<in>S. x \<le> 0" by auto
  have "Max (insert 0 S) = 0"
  proof (rule Max_eqI)
    show "finite (insert 0 S)" using assms by simp
    show "y \<le> 0" if "y \<in> insert 0 S" for y using that le by auto
    show "0 \<in> insert 0 S" by simp
  qed
  with False show ?thesis by simp
qed

lemma reduceBestKg_eq:
  "reduceBestKg ps =
     (if \<exists>pr\<in>set ps. or0 (weight_kg pr) > 0
      then Max ((\<lambda>pr. or0 (weight_kg pr)) ` set ps) else 0)"
  by (simp add: reduceBestKg_def fold_max_from Max_insert_zero)

lemma reduceBestReps_eq:
  "reduceBestReps ps =
     (if \<exists>pr\<in>set ps. or0 (reps pr) > 0
      then Max ((\<lambda>pr. or0 (reps pr)) ` set ps) else 0)"
  by (simp add: reduceBestReps_def fold_max_from Max_insert_zero)

lemma Max_pos:
  fixes S :: "'a::{linorder,zero} set"
  shows "finite S \<Longrightarrow> x \<in> S \<Longrightarrow> x > 0 \<Longrightarrow> Max S > 0"
  by (meson Max_ge less_le_trans)

lemma mset_engineSort: "mset (engineSort lib es) = mset es"
proof -
  have "mset (engineSort lib es) = image_mset (\<lambda>i. es ! i) (mset [0..<length es])"
    by (simp add: engineSort_def del: mset_upt)
  also have "\<dots> = mset (map (\<lambda>i. es ! i) [0..<length es])"
    by (simp del: mset_upt)
  also have "\<dots> = mset es"
    by (simp only: map_nth)
  finally show ?thesis .
qed

lemma mset_sortNewestFirst: "mset (sortNewestFirst lib es) = mset es"
  by (simp add: sortNewestFirst_def mset_engineSort)

lemma set_sortNewestFirst: "set (sortNewestFirst lib es) = set es"
  using mset_sortNewestFirst [of lib es] by (metis set_mset_mset)


lemma set_exercisePRs:
  "set (exercisePRs lib prEintraege ex) =
     {pr \<in> set prEintraege. extractRecordId (exercise_id pr) = Some (ue_record_id ex)}"
  by (simp add: exercisePRs_def set_sortNewestFirst)


lemma extractRecordId_createRecordUrl:
  "length r = 24 \<Longrightarrow> list_all isHexChar r \<Longrightarrow>
     extractRecordId (Some (createRecordUrl a r)) = Some r"
proof -
  assume r: "length r = 24" "list_all isHexChar r"
  have "regexMatch ((''https://my.living-apps.de/rest/apps/'' @ a @ ''/records/'') @ r) = Some r"
    using r by (rule regexMatch_suffix)
  then show ?thesis
    by (simp add: extractRecordId_def createRecordUrl_def)
qed

lemma extract_benchId [simp]:
  "extractRecordId (Some (createRecordUrl a benchId)) = Some benchId"
  by (rule extractRecordId_createRecordUrl) (simp_all add: benchId_def isHexChar_def)

lemma extract_plankId [simp]:
  "extractRecordId (Some (createRecordUrl a plankId)) = Some plankId"
  by (rule extractRecordId_createRecordUrl) (simp_all add: plankId_def isHexChar_def)

lemma bench_neq_plank [simp]: "benchId \<noteq> plankId" "plankId \<noteq> benchId"
  by (simp_all add: benchId_def plankId_def)

section \<open>Claim about the aggregation index\<close>

text \<open>
  C2, as the claim states it, fails: an exercise whose only entry was logged at 0 kg has a
  non-empty group, and its \<open>bestKg\<close> is \<open>undefined\<close>, not 0.
\<close>

theorem C2_zero_weight_counterexample:
  "prs (exerciseWithPRs sampleLib
         [mkEntry ''p1'' (Some (createRecordUrl APP_IDS_UEBUNGEN plankId))
            (Some ''2024-03-04'') (Some 0) (Some 30)] plank)
     = [mkEntry ''p1'' (Some (createRecordUrl APP_IDS_UEBUNGEN plankId))
            (Some ''2024-03-04'') (Some 0) (Some 30)]
   \<and> bestKg (exerciseWithPRs sampleLib
         [mkEntry ''p1'' (Some (createRecordUrl APP_IDS_UEBUNGEN plankId))
            (Some ''2024-03-04'') (Some 0) (Some 30)] plank) = None
   \<and> bestKg (exerciseWithPRs sampleLib
         [mkEntry ''p1'' (Some (createRecordUrl APP_IDS_UEBUNGEN plankId))
            (Some ''2024-03-04'') (Some 0) (Some 30)] plank) \<noteq> Some 0"
  by (simp add: exerciseWithPRs_def exercisePRs_def sortNewestFirst_def reduceBestKg_def
        mkEntry_def plank_def or0_def Let_def consistentTimes_def entryTime_def
        sampleLib_def sampleDates_def)

text \<open>
  C2, amended. The group of an exercise holds the entries whose reference resolves to the
  exercise. \<open>bestKg\<close> is \<open>undefined\<close> exactly when no entry of the group has a positive
  weight (a missing weight counting as 0): for the empty group, and also for a group
  logged at 0 kg only; otherwise it is the maximum of the weights across the group. The
  same holds of \<open>bestReps\<close> and the repetitions.
\<close>

theorem C2_best_values_amended:
  "set (prs (exerciseWithPRs lib prEintraege ex)) =
      {pr \<in> set prEintraege. extractRecordId (exercise_id pr) = Some (ue_record_id ex)}
   \<and> bestKg (exerciseWithPRs lib prEintraege ex) =
      (if \<exists>pr\<in>set (prs (exerciseWithPRs lib prEintraege ex)). or0 (weight_kg pr) > 0
       then Some (Max ((\<lambda>pr. or0 (weight_kg pr)) ` set (prs (exerciseWithPRs lib prEintraege ex))))
       else None)
   \<and> bestReps (exerciseWithPRs lib prEintraege ex) =
      (if \<exists>pr\<in>set (prs (exerciseWithPRs lib prEintraege ex)). or0 (reps pr) > 0
       then Some (Max ((\<lambda>pr. or0 (reps pr)) ` set (prs (exerciseWithPRs lib prEintraege ex))))
       else None)
   \<and> (prs (exerciseWithPRs lib prEintraege ex) = [] \<longrightarrow>
        bestKg (exerciseWithPRs lib prEintraege ex) = None
        \<and> bestReps (exerciseWithPRs lib prEintraege ex) = None)"
proof -
  let ?ps = "exercisePRs lib prEintraege ex"
  have p: "prs (exerciseWithPRs lib prEintraege ex) = ?ps"
    by (simp add: exerciseWithPRs_def Let_def)
  have kg: "bestKg (exerciseWithPRs lib prEintraege ex) =
      (if \<exists>pr\<in>set ?ps. or0 (weight_kg pr) > 0
       then Some (Max ((\<lambda>pr. or0 (weight_kg pr)) ` set ?ps)) else None)"
  proof (cases "\<exists>pr\<in>set ?ps. or0 (weight_kg pr) > 0")
    case True
    then obtain pr where "pr \<in> set ?ps" "or0 (weight_kg pr) > 0" by blast
    then have "Max ((\<lambda>pr. or0 (weight_kg pr)) ` set ?ps) > 0"
      by (intro Max_pos [of _ "or0 (weight_kg pr)"]) simp_all
    with True show ?thesis
      by (simp add: exerciseWithPRs_def Let_def reduceBestKg_eq)
  next
    case False
    then show ?thesis
      by (simp add: exerciseWithPRs_def Let_def reduceBestKg_eq)
  qed
  have rp: "bestReps (exerciseWithPRs lib prEintraege ex) =
      (if \<exists>pr\<in>set ?ps. or0 (reps pr) > 0
       then Some (Max ((\<lambda>pr. or0 (reps pr)) ` set ?ps)) else None)"
  proof (cases "\<exists>pr\<in>set ?ps. or0 (reps pr) > 0")
    case True
    then obtain pr where "pr \<in> set ?ps" "or0 (reps pr) > 0" by blast
    then have "Max ((\<lambda>pr. or0 (reps pr)) ` set ?ps) > 0"
      by (intro Max_pos [of _ "or0 (reps pr)"]) simp_all
    with True show ?thesis
      by (simp add: exerciseWithPRs_def Let_def reduceBestReps_eq)
  next
    case False
    then show ?thesis
      by (simp add: exerciseWithPRs_def Let_def reduceBestReps_eq)
  qed
  have e: "?ps = [] \<longrightarrow> bestKg (exerciseWithPRs lib prEintraege ex) = None
             \<and> bestReps (exerciseWithPRs lib prEintraege ex) = None"
    by (simp add: kg rp)
  from kg rp e show ?thesis
    by (simp only: p set_exercisePRs)
qed

theorem C2_best_values_amended_witness:
  "bestKg (exerciseWithPRs sampleLib
      [mkEntry ''p1'' (Some (createRecordUrl APP_IDS_UEBUNGEN benchId))
         (Some ''2024-03-04'') (Some 100) (Some 5),
       mkEntry ''p2'' (Some (createRecordUrl APP_IDS_UEBUNGEN benchId))
         (Some ''2024-03-11'') (Some 105) (Some 4)] bench) = Some 105
   \<and> bestReps (exerciseWithPRs sampleLib
      [mkEntry ''p1'' (Some (createRecordUrl APP_IDS_UEBUNGEN benchId))
         (Some ''2024-03-04'') (Some 100) (Some 5),
       mkEntry ''p2'' (Some (createRecordUrl APP_IDS_UEBUNGEN benchId))
         (Some ''2024-03-11'') (Some 105) (Some 4)] bench) = Some 5
   \<and> prs (exerciseWithPRs sampleLib
      [mkEntry ''p1'' (Some (createRecordUrl APP_IDS_UEBUNGEN benchId))
         (Some ''2024-03-04'') (Some 100) (Some 5),
       mkEntry ''p2'' (Some (createRecordUrl APP_IDS_UEBUNGEN benchId))
         (Some ''2024-03-11'') (Some 105) (Some 4)] plank) = []
   \<and> bestKg (exerciseWithPRs sampleLib
      [mkEntry ''p1'' (Some (createRecordUrl APP_IDS_UEBUNGEN benchId))
         (Some ''2024-03-04'') (Some 100) (Some 5),
       mkEntry ''p2'' (Some (createRecordUrl APP_IDS_UEBUNGEN benchId))
         (Some ''2024-03-11'') (Some 105) (Some 4)] plank) = None"
proof -
  let ?es = "[mkEntry ''p1'' (Some (createRecordUrl APP_IDS_UEBUNGEN benchId))
                (Some ''2024-03-04'') (Some 100) (Some 5),
              mkEntry ''p2'' (Some (createRecordUrl APP_IDS_UEBUNGEN benchId))
                (Some ''2024-03-11'') (Some 105) (Some 4)]"
  have none: "prs (exerciseWithPRs sampleLib ?es plank) = []"
    by (simp add: exerciseWithPRs_def exercisePRs_def sortNewestFirst_def mkEntry_def
          plank_def Let_def consistentTimes_def)
  have ps: "prs (exerciseWithPRs sampleLib ?es bench) = [?es ! 1, ?es ! 0]"
    by (simp add: exerciseWithPRs_def exercisePRs_def sortNewestFirst_def mkEntry_def
          bench_def Let_def consistentTimes_def timeOf_def entryTime_def sampleLib_def
          sampleDates_def)
  have some: "\<exists>pr\<in>set (prs (exerciseWithPRs sampleLib ?es bench)). or0 (weight_kg pr) > 0"
             "\<exists>pr\<in>set (prs (exerciseWithPRs sampleLib ?es bench)). or0 (reps pr) > 0"
    unfolding ps by (simp_all add: mkEntry_def or0_def)
  from C2_best_values_amended [of sampleLib ?es bench] some
  have "bestKg (exerciseWithPRs sampleLib ?es bench) =
          Some (Max ((\<lambda>pr. or0 (weight_kg pr)) ` set (prs (exerciseWithPRs sampleLib ?es bench))))"
       "bestReps (exerciseWithPRs sampleLib ?es bench) =
          Some (Max ((\<lambda>pr. or0 (reps pr)) ` set (prs (exerciseWithPRs sampleLib ?es bench))))"
    by presburger+
  then have best: "bestKg (exerciseWithPRs sampleLib ?es bench) = Some 105"
                  "bestReps (exerciseWithPRs sampleLib ?es bench) = Some 5"
    unfolding ps by (simp_all add: mkEntry_def or0_def)
  from C2_best_values_amended [of sampleLib ?es plank] none
  have "bestKg (exerciseWithPRs sampleLib ?es plank) = None"
    by blast
  with best none show ?thesis
    by simp
qed


section \<open>Claim about the ranking of exercises\<close>

text \<open>
  C3. The claim wants \<open>topExercises\<close> ranked by the number of entries, the most frequent
  exercise first. The code ranks the ids (\<open>topExerciseIds\<close>) and then filters the
  exercise list by membership in them, which gives the exercises in the order of the
  exercise list. On a history with one bench entry and two plank entries, the ids are
  ranked plank, bench, and \<open>topExercises\<close> lists bench before plank.
\<close>

theorem C3_top_exercises_in_list_order:
  "topExerciseIds
     [mkEntry ''p3'' (Some (createRecordUrl APP_IDS_UEBUNGEN plankId))
        (Some ''2024-03-18'') (Some 0) (Some 60),
      mkEntry ''p2'' (Some (createRecordUrl APP_IDS_UEBUNGEN plankId))
        (Some ''2024-03-11'') (Some 0) (Some 45),
      mkEntry ''p1'' (Some (createRecordUrl APP_IDS_UEBUNGEN benchId))
        (Some ''2024-03-04'') (Some 100) (Some 5)] = [plankId, benchId]
   \<and> map ue_record_id
       (topExercises
         (exercisesWithPRs sampleLib [bench, plank]
           [mkEntry ''p3'' (Some (createRecordUrl APP_IDS_UEBUNGEN plankId))
              (Some ''2024-03-18'') (Some 0) (Some 60),
            mkEntry ''p2'' (Some (createRecordUrl APP_IDS_UEBUNGEN plankId))
              (Some ''2024-03-11'') (Some 0) (Some 45),
            mkEntry ''p1'' (Some (createRecordUrl APP_IDS_UEBUNGEN benchId))
              (Some ''2024-03-04'') (Some 100) (Some 5)])
         [mkEntry ''p3'' (Some (createRecordUrl APP_IDS_UEBUNGEN plankId))
            (Some ''2024-03-18'') (Some 0) (Some 60),
          mkEntry ''p2'' (Some (createRecordUrl APP_IDS_UEBUNGEN plankId))
            (Some ''2024-03-11'') (Some 0) (Some 45),
          mkEntry ''p1'' (Some (createRecordUrl APP_IDS_UEBUNGEN benchId))
            (Some ''2024-03-04'') (Some 100) (Some 5)]) = [benchId, plankId]"
proof -
  let ?es = "[mkEntry ''p3'' (Some (createRecordUrl APP_IDS_UEBUNGEN plankId))
                (Some ''2024-03-18'') (Some 0) (Some 60),
              mkEntry ''p2'' (Some (createRecordUrl APP_IDS_UEBUNGEN plankId))
                (Some ''2024-03-11'') (Some 0) (Some 45),
              mkEntry ''p1'' (Some (createRecordUrl APP_IDS_UEBUNGEN benchId))
                (Some ''2024-03-04'') (Some 100) (Some 5)]"
  have f: "exerciseFrequency ?es = [(plankId, 2), (benchId, 1)]"
    by (simp add: exerciseFrequency_def frequencyStep_def mkEntry_def or0_def)
  have ids: "topExerciseIds ?es = [plankId, benchId]"
    by (simp add: topExerciseIds_def f)
  have "map ue_record_id (topExercises (exercisesWithPRs sampleLib [bench, plank] ?es) ?es)
          = [benchId, plankId]"
    unfolding topExercises_def ids
    by (simp add: exercisesWithPRs_def exerciseWithPRs_def Let_def bench_def plank_def)
  with ids show ?thesis
    by simp
qed



section \<open>Facts about the session dates and the weekly streak\<close>

lemma set_fold_setAdd: "set (fold setAdd xs acc) = set acc \<union> set xs"
  by (induction xs arbitrary: acc) (auto simp: setAdd_def)

lemma distinct_fold_setAdd: "distinct acc \<Longrightarrow> distinct (fold setAdd xs acc)"
  by (induction xs arbitrary: acc) (auto simp: setAdd_def)

lemma set_uniqueDates:
  "set (uniqueDates es) = {d \<in> dateKey ` set es. truthyStr d}"
  by (auto simp: uniqueDates_def set_fold_setAdd)

lemma Some_in_uniqueDates:
  "Some s \<in> set (uniqueDates es) \<longleftrightarrow> s \<noteq> [] \<and> (\<exists>pr\<in>set es. dateKey pr = Some s)"
proof -
  have "Some s \<in> dateKey ` set es \<longleftrightarrow> (\<exists>pr\<in>set es. dateKey pr = Some s)"
    by force
  then show ?thesis
    by (auto simp: set_uniqueDates truthyStr_def)
qed


lemma hasTraining_weeklyStep:
  "hasTraining (weeklyStep lib d m) k \<longleftrightarrow>
     hasTraining m k \<or> (\<exists>s. d = Some s \<and> s \<noteq> [] \<and> weekKey lib s = Some k)"
  by (cases d) (auto simp: weeklyStep_def hasTraining_def Let_def split: option.splits)

lemma hasTraining_fold:
  "hasTraining (fold (weeklyStep lib) ds m) k \<longleftrightarrow>
     hasTraining m k \<or> (\<exists>s. Some s \<in> set ds \<and> s \<noteq> [] \<and> weekKey lib s = Some k)"
proof (induction ds arbitrary: m)
  case Nil
  show ?case by simp
next
  case (Cons d ds)
  show ?case
    by (simp add: Cons.IH hasTraining_weeklyStep) blast
qed

lemma hasTraining_weeklyTraining_iff:
  "hasTraining (weeklyTraining lib es) k \<longleftrightarrow>
     (\<exists>pr\<in>set es. \<exists>s. dateKey pr = Some s \<and> s \<noteq> [] \<and> weekKey lib s = Some k)"
proof -
  have "\<not> hasTraining Map.empty k"
    by (simp add: hasTraining_def)
  then show ?thesis
    by (auto simp: weeklyTraining_def hasTraining_fold Some_in_uniqueDates)
qed







lemma streakLoop_unfold:
  "streakLoop n wt y w s =
     (if n = 0 then s
      else if hasTraining wt (y * 100 + w)
           then (if w - 1 < 1 then streakLoop (n - 1) wt (y - 1) 52 (s + 1)
                 else streakLoop (n - 1) wt y (w - 1) (s + 1))
           else s)"
  by (cases n) simp_all

lemma specWalk_unfold:
  "specWalk n T k =
     (if n = 0 then 0 else if T k then Suc (specWalk (n - 1) T (k - 1)) else 0)"
  by (cases n) simp_all

section \<open>Claim about the weekly streak\<close>

text \<open>
  C5. The claim has the streak count the weeks in a row with a session, walking back from
  the current week one week at a time. The code steps from week 1 to week 52 of the year
  before, and so passes over a week 53. On 3 January 2024 (week 1 of 2024), with sessions
  on 27 December 2023 (week 53 of 2023) and on 3 January 2024, the two weeks follow each
  other and the streak of the specification is 2, while \<open>currentStreak\<close> is 1. With
  sessions on 20 December 2023 (week 52) and on 3 January 2024 the week between them has
  no session: the streak of the specification is 1, while \<open>currentStreak\<close> is 2.
\<close>

theorem C5_streak_across_new_year:
  "currentStreak sampleLib (getWeek sampleLib ''2024-01-03'') (getFullYear sampleLib ''2024-01-03'')
     [mkEntry ''p2'' None (Some ''2024-01-03'') (Some 100) (Some 5),
      mkEntry ''p1'' None (Some ''2023-12-27'') (Some 100) (Some 5)] = 1
   \<and> specStreak sampleLib (getTime sampleLib ''2024-01-03'')
     [mkEntry ''p2'' None (Some ''2024-01-03'') (Some 100) (Some 5),
      mkEntry ''p1'' None (Some ''2023-12-27'') (Some 100) (Some 5)] = 2
   \<and> currentStreak sampleLib (getWeek sampleLib ''2024-01-03'') (getFullYear sampleLib ''2024-01-03'')
     [mkEntry ''p2'' None (Some ''2024-01-03'') (Some 100) (Some 5),
      mkEntry ''p1'' None (Some ''2023-12-20'') (Some 100) (Some 5)] = 2
   \<and> specStreak sampleLib (getTime sampleLib ''2024-01-03'')
     [mkEntry ''p2'' None (Some ''2024-01-03'') (Some 100) (Some 5),
      mkEntry ''p1'' None (Some ''2023-12-20'') (Some 100) (Some 5)] = 1"
proof -
  let ?adjacent = "[mkEntry ''p2'' None (Some ''2024-01-03'') (Some 100) (Some 5),
      mkEntry ''p1'' None (Some ''2023-12-27'') (Some 100) (Some 5)]"
  let ?gap = "[mkEntry ''p2'' None (Some ''2024-01-03'') (Some 100) (Some 5),
      mkEntry ''p1'' None (Some ''2023-12-20'') (Some 100) (Some 5)]"
  have now: "getWeek sampleLib ''2024-01-03'' = 1" "getFullYear sampleLib ''2024-01-03'' = 2024"
      "getTime sampleLib ''2024-01-03'' = 1704240000000"
    by (simp_all add: sampleLib_def sampleDates_def)
  have keys: "weekKey sampleLib ''2024-01-03'' = Some 202401"
      "weekKey sampleLib ''2023-12-27'' = Some 202353"
      "weekKey sampleLib ''2023-12-20'' = Some 202352"
    by (simp_all add: weekKey_def sampleLib_def sampleDates_def)
  have weeks: "validDate sampleLib ''2024-01-03''" "validDate sampleLib ''2023-12-27''"
      "validDate sampleLib ''2023-12-20''"
      "calendarWeek (getTime sampleLib ''2024-01-03'') = 2818"
      "calendarWeek (getTime sampleLib ''2023-12-27'') = 2817"
      "calendarWeek (getTime sampleLib ''2023-12-20'') = 2816"
    by (simp_all add: calendarWeek_def sampleLib_def sampleDates_def)
  have ha: "hasTraining (weeklyTraining sampleLib ?adjacent) k \<longleftrightarrow> k = 202401 \<or> k = 202353" for k
    by (auto simp: hasTraining_weeklyTraining_iff dateKey_def mkEntry_def keys)
  have hg: "hasTraining (weeklyTraining sampleLib ?gap) k \<longleftrightarrow> k = 202401 \<or> k = 202352" for k
    by (auto simp: hasTraining_weeklyTraining_iff dateKey_def mkEntry_def keys)
  have ta: "specTrained sampleLib ?adjacent k \<longleftrightarrow> k = 2818 \<or> k = 2817" for k
    by (auto simp: specTrained_def dateKey_def mkEntry_def weeks)
  have tg: "specTrained sampleLib ?gap k \<longleftrightarrow> k = 2818 \<or> k = 2816" for k
    by (auto simp: specTrained_def dateKey_def mkEntry_def weeks)
  have c1: "currentStreak sampleLib 1 2024 ?adjacent = 1"
    by (simp add: currentStreak_def startWeekKey_def Let_def ha jsRem_def streakLoop_unfold)
  have c2: "currentStreak sampleLib 1 2024 ?gap = 2"
    by (simp add: currentStreak_def startWeekKey_def Let_def hg jsRem_def streakLoop_unfold)
  have s1: "specStreak sampleLib 1704240000000 ?adjacent = 2"
    by (simp add: specStreak_def Let_def calendarWeek_def ta specWalk_unfold)
  have s2: "specStreak sampleLib 1704240000000 ?gap = 1"
    by (simp add: specStreak_def Let_def calendarWeek_def tg specWalk_unfold)
  from c1 c2 s1 s2 show ?thesis
    by (simp only: now)
qed

section \<open>Facts about the recency list\<close>

lemma specDatesValid_times:
  assumes "specDatesValid lib es" and "e \<in> set es"
  shows "entryTime lib e = Some (specTime lib e)" and "timeOf lib e = specTime lib e"
proof -
  from assms have "case date e of None \<Rightarrow> True | Some s \<Rightarrow> s = [] \<or> validDate lib s"
    by (simp add: specDatesValid_def list_all_iff)
  then show "entryTime lib e = Some (specTime lib e)"
    by (auto simp: entryTime_def specTime_def split: option.splits)
  then show "timeOf lib e = specTime lib e"
    by (simp add: timeOf_def)
qed

lemma specDatesValid_consistent: "specDatesValid lib es \<Longrightarrow> consistentTimes lib es"
  by (simp add: consistentTimes_def list_all_iff specDatesValid_times(1))

lemma specDatesValid_subset:
  "specDatesValid lib es \<Longrightarrow> set g \<subseteq> set es \<Longrightarrow> specDatesValid lib g"
  by (auto simp: specDatesValid_def list_all_iff)







section \<open>Claim about entries without a usable date\<close>




section \<open>Facts about double precision\<close>

lemma floor_log2_eqI:
  assumes "0 < x" and "2 powr of_int k \<le> x" and "x < 2 powr of_int (k + 1)"
  shows "\<lfloor>log 2 x\<rfloor> = k"
proof (rule floor_unique)
  show "of_int k \<le> log 2 x"
    using assms(1,2) by (simp add: le_log_iff)
  show "log 2 x < of_int k + 1"
    using assms(1,3) by (simp add: log_less_iff add.commute)
qed

text \<open>
  A positive number that \<open>2 ^ n\<close> scales into the range of the 53-bit significands is
  rounded at that scale.
\<close>

lemma toDouble_down:
  assumes "0 < x" and "2 ^ 52 \<le> x * 2 ^ n" and "x * 2 ^ n < 2 ^ 53"
  shows "toDouble x = of_int (roundHalfEven (x * 2 ^ n)) / 2 ^ n"
proof -
  have p: "(2::real) powr of_int (52 - int n) = 2 ^ 52 / 2 ^ n"
    by (simp add: powr_diff powr_realpow)
  have p1: "(2::real) powr of_int (52 - int n + 1) = 2 ^ 53 / 2 ^ n"
    by (simp add: powr_diff powr_add powr_realpow)
  have "\<lfloor>log 2 \<bar>x\<bar>\<rfloor> = 52 - int n"
  proof (rule floor_log2_eqI)
    show "0 < \<bar>x\<bar>" using assms(1) by simp
    show "2 powr of_int (52 - int n) \<le> \<bar>x\<bar>"
      unfolding p using assms(1,2) by (simp add: field_simps)
    show "\<bar>x\<bar> < 2 powr of_int (52 - int n + 1)"
      unfolding p1 using assms(1,3) by (simp add: field_simps)
  qed
  then have "\<lfloor>log 2 \<bar>x\<bar>\<rfloor> - 52 = - int n"
    by simp
  then have "(2::real) powr of_int (\<lfloor>log 2 \<bar>x\<bar>\<rfloor> - 52) = 1 / 2 ^ n"
    by (simp only: of_int_minus of_int_of_nat_eq powr_minus powr_realpow) (simp add: field_simps)
  with assms(1) show ?thesis
    by (simp add: toDouble_def Let_def)
qed

section \<open>Facts about the strength gain\<close>

lemma find_filter_head: "filter Q xs = y # ys \<Longrightarrow> find Q xs = Some y"
  by (induction xs) (auto split: if_splits)

lemma sort_key_head_earliest:
  fixes f :: "'a \<Rightarrow> int"
  assumes "sort_key f g = s # ss"
  shows "find (\<lambda>e. \<forall>e'\<in>set g. f e \<le> f e') g = Some s"
proof -
  have "sorted (map f (sort_key f g))"
    by (rule sorted_sort_key)
  with assms have "\<forall>x\<in>set ss. f s \<le> f x"
    by simp
  moreover have sg: "set g = set (s # ss)"
    using assms set_sort [of f g] by simp
  ultimately have least: "\<forall>e'\<in>set g. f s \<le> f e'"
    by simp
  have s_in: "s \<in> set g"
    using sg by simp
  have eq: "(\<forall>e'\<in>set g. f e \<le> f e') \<longleftrightarrow> f e = f s" if "e \<in> set g" for e
  proof
    assume "\<forall>e'\<in>set g. f e \<le> f e'"
    with s_in have "f e \<le> f s" by blast
    moreover from least that have "f s \<le> f e" by blast
    ultimately show "f e = f s" by simp
  next
    assume "f e = f s"
    with least show "\<forall>e'\<in>set g. f e \<le> f e'" by simp
  qed
  have "find (\<lambda>e. \<forall>e'\<in>set g. f e \<le> f e') g = find (\<lambda>e. f e = f s) g"
    by (rule find_cong) (simp_all add: eq)
  moreover have "filter (\<lambda>e. f e = f s) g = s # filter (\<lambda>e. f e = f s) ss"
    using sort_key_stable [of f "f s" g] assms by simp
  ultimately show ?thesis
    by (simp add: find_filter_head)
qed

lemma nonempty_sort_key: "g \<noteq> [] \<Longrightarrow> sort_key f g \<noteq> []"
  by (metis length_sort list.size(3) length_0_conv)

lemma gainStep_double:
  assumes v: "specDatesValid lib g"
  shows "gainStep lib g (t, n) =
     (if specQualifies lib g then (jsAdd t (doubleGain lib g), Suc n) else (t, n))"
proof (cases "length g < 2")
  case True
  then show ?thesis
    by (simp add: gainStep_def specQualifies_def)
next
  case False
  then have "g \<noteq> []" by auto
  then obtain s ss where so: "sort_key (timeOf lib) g = s # ss"
    using nonempty_sort_key [of g "timeOf lib"] by (cases "sort_key (timeOf lib) g") auto
  have sorted: "sortOldestFirst lib g = s # ss"
    using specDatesValid_consistent [OF v] by (simp add: sortOldestFirst_def so)
  have "find (\<lambda>e. \<forall>e'\<in>set g. timeOf lib e \<le> timeOf lib e') g = Some s"
    by (rule sort_key_head_earliest [OF so])
  moreover have "find (\<lambda>e. \<forall>e'\<in>set g. timeOf lib e \<le> timeOf lib e') g =
                 find (\<lambda>e. \<forall>e'\<in>set g. specTime lib e \<le> specTime lib e') g"
    by (rule find_cong) (simp_all add: specDatesValid_times(2) [OF v])
  ultimately have e: "specEarliest lib g = Some s"
    by (simp add: specEarliest_def list_all_iff)
  have "set (s # ss) = set g"
    using set_sort [of "timeOf lib" g] so by simp
  then have m: "Math_max (or0 (weight_kg s)) (map (\<lambda>e. or0 (weight_kg e)) ss) = specCurrentBest g"
    using Math_max_map [of "\<lambda>e. or0 (weight_kg e)" s ss] by (simp add: specCurrentBest_def)
  from False show ?thesis
    by (simp add: gainStep_def sorted Let_def m specQualifies_def doubleGain_def
          specBaseline_def e)
qed

lemma fold_gainStep:
  assumes "\<forall>g\<in>set gs. specDatesValid lib g"
  shows "fold (gainStep lib) gs (t, n) =
     (foldl jsAdd t (map (doubleGain lib) (filter (specQualifies lib) gs)),
      n + length (filter (specQualifies lib) gs))"
  using assms by (induction gs arbitrary: t n) (simp_all add: gainStep_double)

lemma objSet_map:
  "distinct ks \<Longrightarrow>
     objSet x v (map (\<lambda>k. (k, f k)) ks) = map (\<lambda>k. (k, (f(x := v)) k)) (setAdd x ks)"
  by (induction ks) (auto simp: setAdd_def)

lemma map_of_map_graph:
  "map_of (map (\<lambda>k. (k, f k)) ks) x = (if x \<in> set ks then Some (f x) else None)"
  by (induction ks) auto

lemma specExerciseIds_snoc:
  "specExerciseIds (es @ [e]) =
     (case extractRecordId (exercise_id e) of
        None \<Rightarrow> specExerciseIds es
      | Some x \<Rightarrow> setAdd x (specExerciseIds es))"
  by (simp add: specExerciseIds_def List.map_filter_def split: option.splits)

lemma set_specExerciseIds:
  "set (specExerciseIds es) = {x. \<exists>pr\<in>set es. extractRecordId (exercise_id pr) = Some x}"
proof -
  have "set (List.map_filter h xs) = {x. \<exists>y\<in>set xs. h y = Some x}" for h :: "'b \<Rightarrow> 'c option" and xs
    by (induction xs) (auto simp: List.map_filter_simps split: option.splits)
  then show ?thesis
    by (simp add: specExerciseIds_def set_fold_setAdd)
qed

lemma distinct_specExerciseIds: "distinct (specExerciseIds es)"
  by (simp add: specExerciseIds_def distinct_fold_setAdd)

lemma entriesByExercise_snoc:
  "entriesByExercise (es @ [e]) = pushEntry e (entriesByExercise es)"
  by (simp add: entriesByExercise_def)

lemma entriesByExercise_spec:
  "entriesByExercise es = map (\<lambda>k. (k, specEntriesOf es k)) (specExerciseIds es)"
proof (induction es rule: rev_induct)
  case Nil
  show ?case
    by (simp add: entriesByExercise_def specExerciseIds_def List.map_filter_def)
next
  case (snoc e es)
  show ?case
  proof (cases "extractRecordId (exercise_id e)")
    case None
    then have "specEntriesOf (es @ [e]) = specEntriesOf es"
      by (auto simp: specEntriesOf_def fun_eq_iff)
    with None snoc show ?thesis
      by (simp add: entriesByExercise_snoc pushEntry_def specExerciseIds_snoc)
  next
    case (Some x)
    let ?ks = "specExerciseIds es"
    have old: "(case map_of (map (\<lambda>k. (k, specEntriesOf es k)) ?ks) x of
                  None \<Rightarrow> [] | Some l \<Rightarrow> l) = specEntriesOf es x"
    proof (cases "x \<in> set ?ks")
      case True
      then show ?thesis by (simp add: map_of_map_graph)
    next
      case False
      then have "specEntriesOf es x = []"
        by (auto simp: set_specExerciseIds specEntriesOf_def filter_empty_conv)
      with False show ?thesis by (simp add: map_of_map_graph)
    qed
    have new: "(specEntriesOf es)(x := specEntriesOf es x @ [e]) = specEntriesOf (es @ [e])"
      using Some by (auto simp: specEntriesOf_def fun_eq_iff)
    have "entriesByExercise (es @ [e]) =
            objSet x (specEntriesOf es x @ [e]) (map (\<lambda>k. (k, specEntriesOf es k)) ?ks)"
      using Some snoc by (simp add: entriesByExercise_snoc pushEntry_def old)
    also have "\<dots> = map (\<lambda>k. (k, specEntriesOf (es @ [e]) k)) (setAdd x ?ks)"
      by (simp add: objSet_map distinct_specExerciseIds new)
    finally show ?thesis
      using Some by (simp add: specExerciseIds_snoc)
  qed
qed

lemma entriesByExercise_values: "map snd (entriesByExercise es) = specGroups es"
  by (simp add: entriesByExercise_spec specGroups_def comp_def)

lemma specGroups_valid:
  "specDatesValid lib es \<Longrightarrow> \<forall>g\<in>set (specGroups es). specDatesValid lib g"
  by (auto simp: specGroups_def specEntriesOf_def intro: specDatesValid_subset)

lemma strengthGainPercent_double:
  assumes "specDatesValid lib es"
  shows "strengthGainPercent lib es = doubleStrengthGain lib es"
proof -
  let ?q = "filter (specQualifies lib) (specGroups es)"
  have f: "fold (gainStep lib) (map snd (entriesByExercise es)) (0, 0) =
             (foldl jsAdd 0 (map (doubleGain lib) ?q), length ?q)"
    using fold_gainStep [OF specGroups_valid [OF assms], of 0 0]
    by (simp add: entriesByExercise_values)
  show ?thesis
    by (simp add: strengthGainPercent_def doubleStrengthGain_def f Let_def)
qed

section \<open>Claim about the strength gain\<close>

text \<open>
  C6, as the claim states it, fails. One exercise went from 80 kg to 103 kg: the gain is
  28.75 percent, and the mean of this one gain, rounded to one decimal, is 28.8. The code
  returns the double of 28.7: in double precision \<open>23 / 80 * 100\<close> is a little less than
  28.75, so that ten times the mean is rounded down to 287.
\<close>

theorem C6_double_rounding_counterexample:
  "strengthGainPercent sampleLib
     [mkEntry ''p2'' (Some (createRecordUrl APP_IDS_UEBUNGEN benchId))
        (Some ''2024-04-03'') (Some 103) (Some 5),
      mkEntry ''p1'' (Some (createRecordUrl APP_IDS_UEBUNGEN benchId))
        (Some ''2024-03-04'') (Some 80) (Some 5)] = toDouble (287 / 10)
   \<and> toDouble (287 / 10) = 8078331831595827 / 2 ^ 48
   \<and> specStrengthGain sampleLib
     [mkEntry ''p2'' (Some (createRecordUrl APP_IDS_UEBUNGEN benchId))
        (Some ''2024-04-03'') (Some 103) (Some 5),
      mkEntry ''p1'' (Some (createRecordUrl APP_IDS_UEBUNGEN benchId))
        (Some ''2024-03-04'') (Some 80) (Some 5)] = 144 / 5
   \<and> toDouble (144 / 5) = 8106479329266893 / 2 ^ 48
   \<and> strengthGainPercent sampleLib
     [mkEntry ''p2'' (Some (createRecordUrl APP_IDS_UEBUNGEN benchId))
        (Some ''2024-04-03'') (Some 103) (Some 5),
      mkEntry ''p1'' (Some (createRecordUrl APP_IDS_UEBUNGEN benchId))
        (Some ''2024-03-04'') (Some 80) (Some 5)]
     \<noteq> specStrengthGain sampleLib
     [mkEntry ''p2'' (Some (createRecordUrl APP_IDS_UEBUNGEN benchId))
        (Some ''2024-04-03'') (Some 103) (Some 5),
      mkEntry ''p1'' (Some (createRecordUrl APP_IDS_UEBUNGEN benchId))
        (Some ''2024-03-04'') (Some 80) (Some 5)]"
proof -
  let ?es = "[mkEntry ''p2'' (Some (createRecordUrl APP_IDS_UEBUNGEN benchId))
        (Some ''2024-04-03'') (Some 103) (Some 5),
      mkEntry ''p1'' (Some (createRecordUrl APP_IDS_UEBUNGEN benchId))
        (Some ''2024-03-04'') (Some 80) (Some 5)]"
  have v: "specDatesValid sampleLib ?es"
    by (simp add: specDatesValid_def mkEntry_def sampleLib_def sampleDates_def)
  have g: "specGroups ?es = ?es # []"
    by (simp add: specGroups_def specExerciseIds_def specEntriesOf_def List.map_filter_def
          setAdd_def mkEntry_def)
  have base: "specBaseline sampleLib ?es = 80"
    by (simp add: specBaseline_def specEarliest_def specTime_def sampleLib_def
          sampleDates_def mkEntry_def or0_def)
  have best: "specCurrentBest ?es = 103"
    by (simp add: specCurrentBest_def mkEntry_def or0_def)
  have q: "filter (specQualifies sampleLib) (specGroups ?es) = ?es # []"
    unfolding g by (simp add: specQualifies_def base best)
  have d1: "toDouble 23 = 23"
    by (subst toDouble_down [where n = 48]) (simp_all add: roundHalfEven_def Let_def)
  have d2: "toDouble (23 / 80) = 5179139571476070 / 2 ^ 54"
    by (subst toDouble_down [where n = 54]) (simp_all add: roundHalfEven_def Let_def)
  have d3: "toDouble (5179139571476070 / 2 ^ 54 * 100) = 8092405580431359 / 2 ^ 48"
    by (subst toDouble_down [where n = 48]) (simp_all add: roundHalfEven_def Let_def)
  have d4: "toDouble (8092405580431359 / 2 ^ 48) = 8092405580431359 / 2 ^ 48"
    by (subst toDouble_down [where n = 48]) (simp_all add: roundHalfEven_def Let_def)
  have d5: "toDouble (8092405580431359 / 2 ^ 48 * 10) = 5057753487769599 / 2 ^ 44"
    by (subst toDouble_down [where n = 44]) (simp_all add: roundHalfEven_def Let_def)
  have r: "Math_round (5057753487769599 / 2 ^ 44) = 287"
    by (simp add: Math_round_def)
  have d6: "toDouble (287 / 10) = 8078331831595827 / 2 ^ 48"
    by (subst toDouble_down [where n = 48]) (simp_all add: roundHalfEven_def Let_def)
  have d7: "toDouble (144 / 5) = 8106479329266893 / 2 ^ 48"
    by (subst toDouble_down [where n = 48]) (simp_all add: roundHalfEven_def Let_def)
  have s1: "jsSub 103 80 = 23"
    by (simp add: jsSub_def d1)
  have s2: "jsDiv 23 80 = 5179139571476070 / 2 ^ 54"
    by (simp only: jsDiv_def d2)
  have s3: "jsMul (5179139571476070 / 2 ^ 54) 100 = 8092405580431359 / 2 ^ 48"
    by (simp only: jsMul_def d3)
  have gain: "doubleGain sampleLib ?es = 8092405580431359 / 2 ^ 48"
    by (simp only: doubleGain_def base best s1 s2 s3)
  have s4: "jsAdd 0 (8092405580431359 / 2 ^ 48) = 8092405580431359 / 2 ^ 48"
    by (simp only: jsAdd_def add_0 d4)
  have s5: "jsDiv (8092405580431359 / 2 ^ 48) 1 = 8092405580431359 / 2 ^ 48"
    by (simp only: jsDiv_def div_by_1 d4)
  have s6: "jsMul (8092405580431359 / 2 ^ 48) 10 = 5057753487769599 / 2 ^ 44"
    by (simp only: jsMul_def d5)
  have "doubleStrengthGain sampleLib ?es =
          jsDiv (Math_round (jsMul (jsDiv (jsAdd 0 (doubleGain sampleLib ?es)) 1) 10)) 10"
    unfolding doubleStrengthGain_def Let_def q by simp
  also have "\<dots> = toDouble (287 / 10)"
    by (simp only: gain s4 s5 s6 r) (simp only: jsDiv_def)
  finally have code: "strengthGainPercent sampleLib ?es = toDouble (287 / 10)"
    by (simp only: strengthGainPercent_double [OF v])
  have sg: "specGain sampleLib ?es = 115 / 4"
    by (simp add: specGain_def base best)
  have "specStrengthGain sampleLib ?es = roundOneDecimal (specGain sampleLib ?es / 1)"
    unfolding specStrengthGain_def Let_def q by simp
  also have "\<dots> = 144 / 5"
    unfolding sg by (simp add: roundOneDecimal_def)
  finally have spec: "specStrengthGain sampleLib ?es = 144 / 5" .
  have "strengthGainPercent sampleLib ?es \<noteq> specStrengthGain sampleLib ?es"
    unfolding code spec d6 by simp
  with code spec d6 d7 show ?thesis
    by (simp only:) simp
qed

text \<open>
  C6, amended. The dates hold no \<open>Invalid Date\<close>, and the weights are 0 or between a
  milligram and a thousand tons. The exercises that count are exactly those with at least
  two entries, a positive baseline (the weight of their earliest entry) and a current best
  (the maximum weight over their entries) above the baseline; the others enter neither the
  sum nor the count, and the value is 0 when no exercise qualifies. The value is computed
  in double precision: every gain as \<open>((currentBest - baseline) / baseline) * 100\<close> with
  each operation rounded to the nearest double, the gains added one after the other, the
  sum divided by their number, and the mean rounded by \<open>Math.round(mean * 10) / 10\<close>. It
  is the value that \<open>statsData\<close> returns, which exists as soon as there is an entry.
\<close>

theorem C6_strength_gain_double:
  assumes "specDatesValid lib allPrEntries" and "weightsInRange allPrEntries"
  shows "strengthGainPercent lib allPrEntries =
     (if filter (specQualifies lib) (specGroups allPrEntries) = [] then 0
      else jsDiv
             (Math_round
                (jsMul
                   (jsDiv
                      (foldl jsAdd 0
                         (map (doubleGain lib)
                            (filter (specQualifies lib) (specGroups allPrEntries))))
                      (real (length (filter (specQualifies lib) (specGroups allPrEntries)))))
                   10))
             10)
   \<and> (allPrEntries \<noteq> [] \<longrightarrow>
        map_option stats_strengthGainPercent
          (statsData lib currentWeekNum currentYear exercises allPrEntries)
        = Some (strengthGainPercent lib allPrEntries))"
  using assms(1)
  by (simp add: strengthGainPercent_double doubleStrengthGain_def Let_def statsData_def)

theorem C6_strength_gain_double_witness:
  "specDatesValid sampleLib
     [mkEntry ''p3'' (Some (createRecordUrl APP_IDS_UEBUNGEN benchId))
        (Some ''2024-04-03'') (Some 120) (Some 5),
      mkEntry ''p2'' (Some (createRecordUrl APP_IDS_UEBUNGEN plankId))
        (Some ''2024-03-11'') (Some 10) (Some 30),
      mkEntry ''p1'' (Some (createRecordUrl APP_IDS_UEBUNGEN benchId))
        (Some ''2024-03-04'') (Some 100) (Some 5)]
   \<and> weightsInRange
     [mkEntry ''p3'' (Some (createRecordUrl APP_IDS_UEBUNGEN benchId))
        (Some ''2024-04-03'') (Some 120) (Some 5),
      mkEntry ''p2'' (Some (createRecordUrl APP_IDS_UEBUNGEN plankId))
        (Some ''2024-03-11'') (Some 10) (Some 30),
      mkEntry ''p1'' (Some (createRecordUrl APP_IDS_UEBUNGEN benchId))
        (Some ''2024-03-04'') (Some 100) (Some 5)]
   \<and> map_option stats_strengthGainPercent
       (statsData sampleLib 14 2024 []
          [mkEntry ''p3'' (Some (createRecordUrl APP_IDS_UEBUNGEN benchId))
             (Some ''2024-04-03'') (Some 120) (Some 5),
           mkEntry ''p2'' (Some (createRecordUrl APP_IDS_UEBUNGEN plankId))
             (Some ''2024-03-11'') (Some 10) (Some 30),
           mkEntry ''p1'' (Some (createRecordUrl APP_IDS_UEBUNGEN benchId))
             (Some ''2024-03-04'') (Some 100) (Some 5)]) = Some 20"
proof -
  let ?es = "[mkEntry ''p3'' (Some (createRecordUrl APP_IDS_UEBUNGEN benchId))
        (Some ''2024-04-03'') (Some 120) (Some 5),
      mkEntry ''p2'' (Some (createRecordUrl APP_IDS_UEBUNGEN plankId))
        (Some ''2024-03-11'') (Some 10) (Some 30),
      mkEntry ''p1'' (Some (createRecordUrl APP_IDS_UEBUNGEN benchId))
        (Some ''2024-03-04'') (Some 100) (Some 5)]"
  let ?a = "[mkEntry ''p3'' (Some (createRecordUrl APP_IDS_UEBUNGEN benchId))
        (Some ''2024-04-03'') (Some 120) (Some 5),
      mkEntry ''p1'' (Some (createRecordUrl APP_IDS_UEBUNGEN benchId))
        (Some ''2024-03-04'') (Some 100) (Some 5)]"
  let ?b = "[mkEntry ''p2'' (Some (createRecordUrl APP_IDS_UEBUNGEN plankId))
        (Some ''2024-03-11'') (Some 10) (Some 30)]"
  have v: "specDatesValid sampleLib ?es"
    by (simp add: specDatesValid_def mkEntry_def sampleLib_def sampleDates_def)
  have w: "weightsInRange ?es"
    by (simp add: weightsInRange_def mkEntry_def or0_def)
  have ne: "?es \<noteq> []"
    by simp
  have g: "specGroups ?es = [?a, ?b]"
    by (simp add: specGroups_def specExerciseIds_def specEntriesOf_def List.map_filter_def
          setAdd_def mkEntry_def)
  have base: "specBaseline sampleLib ?a = 100"
    by (simp add: specBaseline_def specEarliest_def specTime_def sampleLib_def
          sampleDates_def mkEntry_def or0_def)
  have best: "specCurrentBest ?a = 120"
    by (simp add: specCurrentBest_def mkEntry_def or0_def)
  have qa: "specQualifies sampleLib ?a"
    unfolding specQualifies_def base best by simp
  have qb: "\<not> specQualifies sampleLib ?b"
    by (simp add: specQualifies_def)
  have q: "filter (specQualifies sampleLib) (specGroups ?es) = ?a # []"
    unfolding g using qa qb by simp
  have d1: "toDouble 20 = 20"
    by (subst toDouble_down [where n = 48]) (simp_all add: roundHalfEven_def Let_def)
  have d2: "toDouble (1 / 5) = 7205759403792794 / 2 ^ 55"
    by (subst toDouble_down [where n = 55]) (simp_all add: roundHalfEven_def Let_def)
  have d3: "toDouble (7205759403792794 / 2 ^ 55 * 100) = 20"
    by (subst toDouble_down [where n = 48]) (simp_all add: roundHalfEven_def Let_def)
  have d4: "toDouble 200 = 200"
    by (subst toDouble_down [where n = 45]) (simp_all add: roundHalfEven_def Let_def)
  have s1: "jsSub 120 100 = 20"
    by (simp add: jsSub_def d1)
  have s2: "jsDiv 20 100 = 7205759403792794 / 2 ^ 55"
    by (simp add: jsDiv_def d2)
  have s3: "jsMul (7205759403792794 / 2 ^ 55) 100 = 20"
    by (simp only: jsMul_def d3)
  have gain: "doubleGain sampleLib ?a = 20"
    by (simp only: doubleGain_def base best s1 s2 s3)
  have s4: "jsAdd 0 20 = 20" "jsDiv 20 1 = 20" "jsMul 20 10 = 200" "jsDiv 200 10 = 20"
    by (simp_all add: jsAdd_def jsDiv_def jsMul_def d1 d4)
  have r: "Math_round 200 = 200"
    by (simp add: Math_round_def)
  note c6 = C6_strength_gain_double [OF v w, of 14 2024 "[]"]
  from c6 have "strengthGainPercent sampleLib ?es =
      jsDiv (Math_round (jsMul (jsDiv (jsAdd 0 (doubleGain sampleLib ?a)) 1) 10)) 10"
    unfolding q by simp
  then have val: "strengthGainPercent sampleLib ?es = 20"
    by (simp only: gain s4 r)
  from c6 ne
  have "map_option stats_strengthGainPercent (statsData sampleLib 14 2024 [] ?es)
          = Some (strengthGainPercent sampleLib ?es)"
    by blast
  with val v w show ?thesis
    by (simp only:)
qed

end
